theory Spec2Isabelle
  imports Main "HOL-Library.Sublist" "HOL-Library.Word"
begin

section \<open>Strings and the library functions the bridge calls\<close>

text \<open>
  A Go \<open>string\<close> is a sequence of bytes: it is modelled as \<open>string\<close> (a list of 8-bit
  \<open>char\<close>s), \<open>len(s)\<close> is \<open>length s\<close>, \<open>s[i:]\<close> is \<open>drop i s\<close> and \<open>s[:i]\<close> is
  \<open>take i s\<close>. The functions of this section belong to Go's standard library
  (\<open>strings\<close>, \<open>unicode/utf8\<close>, \<open>regexp\<close>, \<open>strconv\<close>, \<open>fmt\<close>); they are written here
  after their documented behaviour.
\<close>

definition byteval :: "char \<Rightarrow> nat" where
  "byteval c = of_char c"

definition byte :: "nat \<Rightarrow> char" where
  "byte n = char_of n"

text \<open>\<open>strings.IndexByte(s, c)\<close>: the index of the first \<open>c\<close> in \<open>s\<close>, or \<open>-1\<close>.\<close>

fun IndexByte :: "string \<Rightarrow> char \<Rightarrow> int" where
  "IndexByte [] c = -1"
| "IndexByte (x # xs) c =
     (if x = c then 0
      else (let r = IndexByte xs c in if r < 0 then -1 else r + 1))"

text \<open>\<open>strings.TrimPrefix(s, p)\<close>.\<close>

definition TrimPrefix :: "string \<Rightarrow> string \<Rightarrow> string" where
  "TrimPrefix s p = (if prefix p s then drop (length p) s else s)"

text \<open>\<open>strings.Trim(s, cutset)\<close>: leading and trailing bytes of the cutset removed.\<close>

definition Trim :: "string \<Rightarrow> string \<Rightarrow> string" where
  "Trim s cutset =
     rev (dropWhile (\<lambda>c. c \<in> set cutset) (rev (dropWhile (\<lambda>c. c \<in> set cutset) s)))"

text \<open>\<open>strings.Cut(s, sep)\<close> for a one-byte separator: before, after, found.\<close>

definition Cut :: "string \<Rightarrow> char \<Rightarrow> string \<times> string \<times> bool" where
  "Cut s sep =
     (if sep \<in> set s
      then (takeWhile (\<lambda>c. c \<noteq> sep) s, drop 1 (dropWhile (\<lambda>c. c \<noteq> sep) s), True)
      else (s, [], False))"

subsection \<open>UTF-8\<close>

definition RuneError :: nat where
  "RuneError = 0xFFFD"

text \<open>
  The first-byte table of \<open>unicode/utf8\<close>: for a leading byte, the length of the sequence
  and the range accepted for the second byte; \<open>None\<close> for a byte that cannot lead.
\<close>

definition utf8_first :: "nat \<Rightarrow> (nat \<times> nat \<times> nat) option" where
  "utf8_first b0 =
     (if 0xC2 \<le> b0 \<and> b0 \<le> 0xDF then Some (2, 0x80, 0xBF)
      else if b0 = 0xE0 then Some (3, 0xA0, 0xBF)
      else if 0xE1 \<le> b0 \<and> b0 \<le> 0xEC then Some (3, 0x80, 0xBF)
      else if b0 = 0xED then Some (3, 0x80, 0x9F)
      else if 0xEE \<le> b0 \<and> b0 \<le> 0xEF then Some (3, 0x80, 0xBF)
      else if b0 = 0xF0 then Some (4, 0x90, 0xBF)
      else if 0xF1 \<le> b0 \<and> b0 \<le> 0xF3 then Some (4, 0x80, 0xBF)
      else if b0 = 0xF4 then Some (4, 0x80, 0x8F)
      else None)"

text \<open>
  The well-formed sequence at the head of a string, if there is one: the rune and its
  width. The masks and shifts of the Go code are written as \<open>mod\<close> and multiplication.
\<close>

definition decodeValid :: "string \<Rightarrow> (nat \<times> nat) option" where
  "decodeValid s =
     (case s of
        [] \<Rightarrow> None
      | c0 # cs \<Rightarrow>
          (let b0 = byteval c0 in
           if b0 < 0x80 then Some (b0, 1)
           else
             (case utf8_first b0 of
                None \<Rightarrow> None
              | Some (sz, lo, hi) \<Rightarrow>
                  if length s < sz then None
                  else
                    (let b1 = byteval (s ! 1) in
                     if b1 < lo \<or> hi < b1 then None
                     else if sz \<le> 2 then Some ((b0 mod 32) * 64 + b1 mod 64, 2)
                     else
                       (let b2 = byteval (s ! 2) in
                        if b2 < 0x80 \<or> 0xBF < b2 then None
                        else if sz \<le> 3
                        then Some ((b0 mod 16) * 4096 + (b1 mod 64) * 64 + b2 mod 64, 3)
                        else
                          (let b3 = byteval (s ! 3) in
                           if b3 < 0x80 \<or> 0xBF < b3 then None
                           else Some ((b0 mod 8) * 262144 + (b1 mod 64) * 4096
                                      + (b2 mod 64) * 64 + b3 mod 64, 4)))))))"

text \<open>
  \<open>utf8.DecodeRuneInString\<close>: \<open>(RuneError, 0)\<close> for the empty string and
  \<open>(RuneError, 1)\<close> for an invalid encoding.
\<close>

definition DecodeRuneInString :: "string \<Rightarrow> nat \<times> nat" where
  "DecodeRuneInString s =
     (case decodeValid s of
        Some rn \<Rightarrow> rn
      | None \<Rightarrow> (RuneError, if s = [] then 0 else 1))"

text \<open>
  The UTF-8 encoding of one rune, as the conversion \<open>string([]rune{...})\<close> produces it:
  a surrogate or a value beyond U+10FFFF is encoded as U+FFFD.
\<close>

definition encodeRune :: "nat \<Rightarrow> string" where
  "encodeRune r =
     (if r < 0x80 then [byte r]
      else if r < 0x800 then [byte (0xC0 + r div 64), byte (0x80 + r mod 64)]
      else if (0xD800 \<le> r \<and> r \<le> 0xDFFF) \<or> 0x10FFFF < r
      then [byte 0xEF, byte 0xBF, byte 0xBD]
      else if r < 0x10000
      then [byte (0xE0 + r div 4096), byte (0x80 + (r div 64) mod 64), byte (0x80 + r mod 64)]
      else [byte (0xF0 + r div 262144), byte (0x80 + (r div 4096) mod 64),
            byte (0x80 + (r div 64) mod 64), byte (0x80 + r mod 64)])"

text \<open>The zero-width space U+200B, in UTF-8 the bytes E2 80 8B.\<close>

definition zwsp :: string where
  "zwsp = encodeRune 0x200B"

text \<open>A Unicode scalar value: what a rune is when it is not an encoding error.\<close>

definition validRune :: "nat \<Rightarrow> bool" where
  "validRune r = (r < 0xD800 \<or> (0xDFFF < r \<and> r \<le> 0x10FFFF))"




subsection \<open>The two regular expressions of the IRC side\<close>

text \<open>The class \<open>\\s\<close> of Go's \<open>regexp\<close>: tab, line feed, form feed, carriage return, space.\<close>

definition isSpaceRE :: "char \<Rightarrow> bool" where
  "isSpaceRE c = (c = CHR 0x09 \<or> c = CHR 0x0A \<or> c = CHR 0x0C \<or> c = CHR 0x0D \<or> c = CHR 0x20)"

definition schemeLen :: "string \<Rightarrow> nat option" where
  "schemeLen s =
     (if prefix ''http://'' s then Some 7
      else if prefix ''https://'' s then Some 8
      else None)"

definition urlPunct :: "char \<Rightarrow> bool" where
  "urlPunct c = (c \<in> set ''<.,:;\"')]'')"

text \<open>
  \<open>patternURL.FindStringIndex(s)\<close> for
  \<^verbatim>\<open>^(https?://[^\s<]+[^<.,:;"')\]\s])\<close>: the end \<open>loc[1]\<close> of the match, which can
  only start at 0. After the scheme the greedy class takes the longest run of runes
  that are neither blank nor \<open><\<close>, and gives runes back until the last one left is not
  one of the closing punctuation characters; at least one rune must stay in front of
  that last one.
\<close>

definition patternURL_FindStringIndex :: "string \<Rightarrow> nat option" where
  "patternURL_FindStringIndex s =
     (case schemeLen s of
        None \<Rightarrow> None
      | Some k \<Rightarrow>
          (let run = takeWhile (\<lambda>c. \<not> isSpaceRE c \<and> c \<noteq> CHR ''<'') (drop k s);
               kept = rev (dropWhile urlPunct (rev run))
           in if snd (DecodeRuneInString run) < length kept
              then Some (k + length kept) else None))"

section \<open>The control-code parser: \<open>discordFormat\<close>\<close>

definition fBold :: char where "fBold = CHR 0x02"
definition fItalics :: char where "fItalics = CHR 0x1D"
definition fUnderline :: char where "fUnderline = CHR 0x1F"
definition fStrikethrough :: char where "fStrikethrough = CHR 0x1E"
definition fMonospace :: char where "fMonospace = CHR 0x11"
definition fColor :: char where "fColor = CHR 0x03"
definition fColorHex :: char where "fColorHex = CHR 0x04"
definition fReverse :: char where "fReverse = CHR 0x16"
definition fReset :: char where "fReset = CHR 0x0F"

lemmas fmt_bytes = fBold_def fItalics_def fUnderline_def fStrikethrough_def
  fMonospace_def fColor_def fColorHex_def fReverse_def fReset_def

record ircStyle =
  italics :: bool
  bold :: bool
  underline :: bool
  strikethrough :: bool

text \<open>The zero value \<open>ircStyle{}\<close>.\<close>

definition noStyle :: ircStyle where
  "noStyle = \<lparr>italics = False, bold = False, underline = False, strikethrough = False\<rparr>"

definition isDigit :: "string \<Rightarrow> nat \<Rightarrow> bool" where
  "isDigit s i = (i < length s \<and> 48 \<le> byteval (s ! i) \<and> byteval (s ! i) \<le> 57)"

text \<open>
  The variables of the loop of \<open>discordFormat\<close>: the index \<open>i\<close>, the two styles, the raw
  flag, the end of the current URL and the string builder.
\<close>

record fmtState =
  pos :: nat
  prevStyle :: ircStyle
  nextStyle :: ircStyle
  raw :: bool
  urlEnd :: nat
  sb :: string

definition fmtInit :: fmtState where
  "fmtInit = \<lparr>pos = 0, prevStyle = noStyle, nextStyle = noStyle, raw = False,
              urlEnd = 0, sb = []\<rparr>"

text \<open>Lines 189 to 193: the lazy search for a URL starting at the current index.\<close>

definition scanURL :: "string \<Rightarrow> fmtState \<Rightarrow> fmtState" where
  "scanURL msg s =
     (if urlEnd s \<le> pos s
      then (case patternURL_FindStringIndex (drop (pos s) msg) of
              Some e \<Rightarrow> s\<lparr>urlEnd := pos s + e\<rparr>
            | None \<Rightarrow> s)
      else s)"

text \<open>The \<open>fColor\<close> case: the index after the digits of the colour have been consumed.\<close>

definition skipColor :: "string \<Rightarrow> nat \<Rightarrow> nat" where
  "skipColor msg i0 =
     (let i1 = i0 + 1;
          i2 = (if isDigit msg (i1 + 1) then i1 + 1 else i1)
      in if isDigit msg (i2 + 2) \<and> msg ! (i2 + 1) = CHR '',''
         then (let i3 = i2 + 2 in if isDigit msg (i3 + 1) then i3 + 1 else i3)
         else i2)"

text \<open>
  The \<open>switch\<close> of lines 195 to 244. The result is the updated variables and the string
  \<open>write\<close>, or \<open>None\<close> where the case ends in \<open>continue\<close>.
\<close>

definition fmtSwitch :: "string \<Rightarrow> fmtState \<Rightarrow> fmtState \<times> string option" where
  "fmtSwitch msg s =
     (let i = pos s; c = msg ! i in
      if c = fBold then (s\<lparr>nextStyle := (nextStyle s)\<lparr>bold := True\<rparr>\<rparr>, Some [])
      else if c = fItalics then (s\<lparr>nextStyle := (nextStyle s)\<lparr>italics := True\<rparr>\<rparr>, Some [])
      else if c = fUnderline then (s\<lparr>nextStyle := (nextStyle s)\<lparr>underline := True\<rparr>\<rparr>, Some [])
      else if c = fStrikethrough
      then (s\<lparr>nextStyle := (nextStyle s)\<lparr>strikethrough := True\<rparr>\<rparr>, Some [])
      else if c = fReset then (s\<lparr>nextStyle := noStyle\<rparr>, Some [])
      else if c = fMonospace \<or> c = fReverse then (s, None)
      else if c = fColor
      then (if \<not> isDigit msg (i + 1) then (s, None)
            else (s\<lparr>pos := skipColor msg i\<rparr>, None))
      else if c = fColorHex then (s\<lparr>pos := i + 6\<rparr>, None)
      else if c = CHR ''`''
      then ((if \<not> raw s
             then (if 0 < IndexByte (drop (i + 1) msg) (CHR ''`'') then s\<lparr>raw := True\<rparr> else s)
             else s\<lparr>raw := False\<rparr>),
            Some [c])
      else if c = CHR 0x5C \<or> c = CHR ''*'' \<or> c = CHR ''_'' \<or> c = CHR ''~''
      then (s, Some (if urlEnd s \<le> i then [CHR 0x5C, c] else [c]))
      else (s, Some [c]))"

definition closeMarkers :: "ircStyle \<Rightarrow> string" where
  "closeMarkers st =
     (if italics st then ''*'' else []) @ (if bold st then ''**'' else [])
     @ (if underline st then ''__'' else []) @ (if strikethrough st then ''~~'' else [])"

definition openMarkers :: "ircStyle \<Rightarrow> string" where
  "openMarkers st =
     (if strikethrough st then ''~~'' else []) @ (if underline st then ''__'' else [])
     @ (if bold st then ''**'' else []) @ (if italics st then ''*'' else [])"

text \<open>Lines 245 to 282: what is written for \<open>write\<close>, with the markers of a style change.\<close>

definition fmtEmit :: "string \<Rightarrow> fmtState \<Rightarrow> string \<Rightarrow> fmtState" where
  "fmtEmit msg s write =
     (if write = [] \<and> pos s + 1 < length msg then s
      else if prevStyle s = nextStyle s then s\<lparr>sb := sb s @ write\<rparr>
      else
        (let closed = sb s @ closeMarkers (prevStyle s) in
         if write = [] then s\<lparr>prevStyle := noStyle, sb := closed\<rparr>
         else s\<lparr>prevStyle := nextStyle s,
                sb := closed @ zwsp @ openMarkers (nextStyle s) @ write\<rparr>))"

text \<open>One iteration of the loop, with the \<open>i++\<close> that follows the body.\<close>

definition fmtStep :: "string \<Rightarrow> fmtState \<Rightarrow> fmtState" where
  "fmtStep msg s =
     (let c = msg ! pos s in
      if raw s \<and> c \<noteq> CHR ''`'' then s\<lparr>pos := pos s + 1, sb := sb s @ [c]\<rparr>
      else
        (case fmtSwitch msg (scanURL msg s) of
           (s', None) \<Rightarrow> s'\<lparr>pos := pos s' + 1\<rparr>
         | (s', Some write) \<Rightarrow> (let s'' = fmtEmit msg s' write in s''\<lparr>pos := pos s'' + 1\<rparr>)))"

lemma pos_scanURL: "pos (scanURL msg s) = pos s"
  by (simp add: scanURL_def split: option.splits)

lemma skipColor_ge: "i \<le> skipColor msg i"
  by (simp add: skipColor_def Let_def)

lemma pos_fmtSwitch: "pos s \<le> pos (fst (fmtSwitch msg s))"
  by (simp add: fmtSwitch_def Let_def skipColor_ge)

lemma pos_fmtEmit: "pos (fmtEmit msg s w) = pos s"
  by (simp add: fmtEmit_def Let_def)

lemma pos_fmtStep: "pos s < pos (fmtStep msg s)"
proof (cases "raw s \<and> msg ! pos s \<noteq> CHR ''`''")
  case True
  then show ?thesis by (simp add: fmtStep_def Let_def)
next
  case False
  obtain s' w where sw: "fmtSwitch msg (scanURL msg s) = (s', w)"
    by (cases "fmtSwitch msg (scanURL msg s)")
  have "pos s \<le> pos s'"
    using pos_fmtSwitch [of "scanURL msg s" msg] sw by (simp add: pos_scanURL)
  with False sw show ?thesis
    by (cases w) (auto simp: fmtStep_def Let_def pos_fmtEmit)
qed

function fmtLoop :: "string \<Rightarrow> fmtState \<Rightarrow> fmtState" where
  "fmtLoop msg s = (if pos s < length msg then fmtLoop msg (fmtStep msg s) else s)"
  by pat_completeness auto
termination
proof (relation "measure (\<lambda>(msg, s). length msg - pos s)")
  show "wf (measure (\<lambda>(msg, s). length msg - pos s))" by simp
next
  fix msg :: string and s :: fmtState
  assume "pos s < length msg"
  with pos_fmtStep [of s msg]
  show "((msg, fmtStep msg s), (msg, s)) \<in> measure (\<lambda>(msg, s). length msg - pos s)"
    by simp
qed

declare fmtLoop.simps [simp del]

definition discordFormat :: "string \<Rightarrow> string" where
  "discordFormat msg = sb (fmtLoop (msg @ [fReset]) fmtInit)"

section \<open>The correlation store and the IRC side\<close>

text \<open>
  \<open>idIRCDiscord\<close> and \<open>idDiscordIRC\<close> are Go maps from a string to a slice of strings.
  Reading a key that is absent gives the nil slice, and \<open>append\<close> to it gives a
  one-element slice.
\<close>

type_synonym idmap = "string \<Rightarrow> string list option"

definition ids :: "idmap \<Rightarrow> string \<Rightarrow> string list" where
  "ids m k = (case m k of None \<Rightarrow> [] | Some v \<Rightarrow> v)"

text \<open>
  The global variables the handlers read and write. \<open>cfgChannels\<close> is \<open>cfg.Channels\<close>
  (Discord channel to IRC channel), a Go map kept as an association list in the order
  the \<open>range\<close> loops happen to visit it; \<open>ircClientSet\<close> says that \<open>ircClient\<close> is not
  nil; \<open>sent\<close> counts the calls of \<open>ChannelMessageSendComplex\<close>, so that each call can
  be given its own answer.
\<close>

record bridge =
  cfgChannels :: "(string \<times> string) list"
  ircReady :: bool
  ircClientSet :: bool
  idIRCDiscord :: idmap
  idDiscordIRC :: idmap
  sent :: nat

text \<open>
  An \<open>irc.Message\<close>. \<open>Tags\<close> is a Go map, kept as an association list and read with
  \<open>tag\<close> (the empty string for an absent key); \<open>Prefix\<close> is a pointer, \<open>None\<close> when
  nil, and carries the name only.
\<close>

record ircMessage =
  tags :: "(string \<times> string) list"
  prefixName :: "string option"
  command :: string
  params :: "string list"

definition tag :: "ircMessage \<Rightarrow> string \<Rightarrow> string" where
  "tag m k = (case map_of (tags m) k of None \<Rightarrow> [] | Some v \<Rightarrow> v)"

text \<open>What a handler asks of the two connections, in the order of the calls.\<close>

datatype action =
    WriteMessage ircMessage
  | ChannelMessageSendComplex string string string
  | ChannelMessageDelete string string
  | ChannelTyping string

text \<open>A Go run-time panic: nothing in the program recovers from one.\<close>

datatype fault = IndexOutOfRange | NilDereference

text \<open>
  What the IRC handler is given from outside: \<open>c.CurrentNick()\<close>, the
  answer of the \<open>n\<close>-th call of \<open>ChannelMessageSendComplex\<close> (the identifier of the new
  message, or \<open>None\<close> for an error) and \<open>discordTransformPart\<close>, which rewrites mentions
  and emoji against the roster of the Discord session.
\<close>

record ircEnv =
  currentNick :: string
  sendComplex :: "nat \<Rightarrow> string option"
  discordTransformPart :: "string \<Rightarrow> string \<Rightarrow> string"

definition discordChannel :: "(string \<times> string) list \<Rightarrow> string \<Rightarrow> string" where
  "discordChannel chans irc =
     (case find (\<lambda>(dc, ic). ic = irc) chans of Some (dc, ic) \<Rightarrow> dc | None \<Rightarrow> [])"

text \<open>
  \<open>patternMediaLink.MatchString(s)\<close> for
  \<^verbatim>\<open>^https?://[^\s\x01-\x16]+\.(?:jpg|jpeg|png|gif|mp4|webm)$\<close>.
\<close>

definition mediaChar :: "char \<Rightarrow> bool" where
  "mediaChar c = (\<not> isSpaceRE c \<and> \<not> (1 \<le> byteval c \<and> byteval c \<le> 0x16))"

definition patternMediaLink_MatchString :: "string \<Rightarrow> bool" where
  "patternMediaLink_MatchString s =
     (case schemeLen s of
        None \<Rightarrow> False
      | Some k \<Rightarrow>
          list_ex
            (\<lambda>ext. suffix (CHR ''.'' # ext) (drop k s)
                   \<and> length ext + 1 < length (drop k s)
                   \<and> list_all mediaChar
                         (take (length (drop k s) - (length ext + 1)) (drop k s)))
            [''jpg'', ''jpeg'', ''png'', ''gif'', ''mp4'', ''webm''])"

subsection \<open>\<open>discordTransform\<close>\<close>

text \<open>
  The two indices of lines 346 and 348, and the test of lines 347 to 350 that they
  delimit a raw span to be copied.
\<close>

definition rawStart :: "string \<Rightarrow> int" where
  "rawStart msg = IndexByte msg (CHR ''`'')"

definition rawEnd :: "string \<Rightarrow> int" where
  "rawEnd msg = rawStart msg + 1 + IndexByte (drop (nat (rawStart msg + 1)) msg) (CHR ''`'')"

definition rawFound :: "string \<Rightarrow> bool" where
  "rawFound msg = (0 \<le> rawStart msg \<and> 0 \<le> rawEnd msg \<and> 0 < rawStart msg)"

lemma IndexByte_ge: "- 1 \<le> IndexByte s c"
  by (induction s) (auto simp: Let_def)

lemma rawFound_rawEnd: "rawFound msg \<Longrightarrow> 0 < rawEnd msg"
  using IndexByte_ge [of "drop (nat (rawStart msg + 1)) msg" "CHR ''`''"]
  by (simp add: rawFound_def rawEnd_def)

function transformLoop :: "(string \<Rightarrow> string) \<Rightarrow> string \<Rightarrow> string \<Rightarrow> string" where
  "transformLoop part msg out =
     (if msg = [] then out
      else if rawFound msg
      then transformLoop part (drop (nat (rawEnd msg + 1)) msg)
             (out @ part (take (nat (rawStart msg)) msg)
                  @ drop (nat (rawStart msg)) (take (nat (rawEnd msg + 1)) msg))
      else out @ part msg)"
  by pat_completeness auto
termination
proof (relation "measure (\<lambda>(part, msg, out). length msg)")
  show "wf (measure (\<lambda>(part, msg, out). length msg))" by simp
next
  fix part :: "string \<Rightarrow> string" and msg out :: string
  assume "msg \<noteq> []" and "rawFound msg"
  then show "((part, drop (nat (rawEnd msg + 1)) msg,
               out @ part (take (nat (rawStart msg)) msg)
                   @ drop (nat (rawStart msg)) (take (nat (rawEnd msg + 1)) msg)),
              (part, msg, out)) \<in> measure (\<lambda>(part, msg, out). length msg)"
    using rawFound_rawEnd [of msg] by simp
qed

definition discordTransform :: "ircEnv \<Rightarrow> string \<Rightarrow> string \<Rightarrow> string" where
  "discordTransform env channel msg = transformLoop (discordTransformPart env channel) msg []"

subsection \<open>\<open>discordSend\<close>\<close>

type_synonym world = "bridge \<times> action list"

text \<open>
  Lines 379 and 380, run when the send succeeded with identifier \<open>mid\<close> and the
  parameter \<open>id\<close> (here \<open>ircID\<close>) is not empty. Line 380 reads \<open>idIRCDiscord[m.ID]\<close>, after line 379 has stored into that
  map.
\<close>

definition sendRecord :: "string \<Rightarrow> string \<Rightarrow> bridge \<Rightarrow> bridge" where
  "sendRecord ircID mid b =
     (let m1 = (idIRCDiscord b)(ircID \<mapsto> ids (idIRCDiscord b) ircID @ [mid]);
          m2 = (idDiscordIRC b)(mid \<mapsto> ids m1 mid @ [ircID])
      in b\<lparr>idIRCDiscord := m1, idDiscordIRC := m2\<rparr>)"

definition discordSend ::
  "ircEnv \<Rightarrow> string \<Rightarrow> string \<Rightarrow> string \<Rightarrow> string \<Rightarrow> world \<Rightarrow> world" where
  "discordSend env ircID channel msg replyID w =
     (let b = fst w;
          content = discordTransform env channel (discordFormat msg);
          acts = snd w @ [ChannelMessageSendComplex channel content replyID];
          b1 = b\<lparr>sent := sent b + 1\<rparr>
      in case sendComplex env (sent b) of
           None \<Rightarrow> (b1, acts)
         | Some mid \<Rightarrow> if ircID \<noteq> [] then (sendRecord ircID mid b1, acts) else (b1, acts))"

subsection \<open>\<open>ircHandler\<close>\<close>

text \<open>Lines 389 to 392: the Discord message an IRC reply tag points to.\<close>

definition ircReplyID :: "bridge \<Rightarrow> ircMessage \<Rightarrow> string" where
  "ircReplyID b m =
     (let l = ids (idIRCDiscord b) (tag m ''+draft/reply'')
      in if 0 < length l then l ! (length l - 1) else [])"

text \<open>Lines 495 and 496: the pair learnt from the echo of a relayed message.\<close>

definition echoRecord :: "string \<Rightarrow> string \<Rightarrow> bridge \<Rightarrow> bridge" where
  "echoRecord msgID discordID b =
     b\<lparr>idIRCDiscord := (idIRCDiscord b)(msgID \<mapsto> ids (idIRCDiscord b) msgID @ [discordID]),
       idDiscordIRC := (idDiscordIRC b)(discordID \<mapsto> ids (idDiscordIRC b) discordID @ [msgID])\<rparr>"

definition outMessage :: "string \<Rightarrow> string list \<Rightarrow> ircMessage" where
  "outMessage cmd ps = \<lparr>tags = [], prefixName = None, command = cmd, params = ps\<rparr>"

text \<open>
  The first \<open>switch\<close> (lines 394 to 428): the handshake. The result is \<open>handled\<close> with
  the new state and the messages written.
\<close>

definition botModes :: "string \<Rightarrow> string list \<Rightarrow> action list" where
  "botModes nick ps =
     concat (map (\<lambda>param. case Cut param (CHR ''='') of
                    (key, val, found) \<Rightarrow>
                      if key = ''BOT'' then [WriteMessage (outMessage ''MODE'' [nick, CHR ''+'' # val])]
                      else [])
                 (drop 1 (take (length ps - 1) ps)))"

definition handshake :: "ircEnv \<Rightarrow> ircMessage \<Rightarrow> world \<Rightarrow> fault + (bool \<times> world)" where
  "handshake env m w =
     (let b = fst w; acts = snd w in
      if command m = ''001''
      then Inr (True, b\<lparr>ircClientSet := True\<rparr>,
                acts @ map (\<lambda>(dc, ic). WriteMessage (outMessage ''JOIN'' [ic])) (cfgChannels b))
      else if command m = ''005''
      then Inr (True, b,
                acts @ (if 2 < length (params m) then botModes (currentNick env) (params m) else [])
                     @ [WriteMessage (outMessage ''PING'' [''ready''])])
      else if command m = ''PONG''
      then (if params m = [] then Inl IndexOutOfRange
            else Inr (True,
                      (if params m ! (length (params m) - 1) = ''ready''
                       then b\<lparr>ircReady := True\<rparr> else b),
                      acts))
      else Inr (False, w))"

text \<open>The \<open>PRIVMSG\<close> case of the second \<open>switch\<close> (lines 488 to 520).\<close>

definition relayPrivmsg ::
  "ircEnv \<Rightarrow> ircMessage \<Rightarrow> string \<Rightarrow> string \<Rightarrow> string \<Rightarrow> world \<Rightarrow> fault + world" where
  "relayPrivmsg env m name msgID replyID w =
     (if params m = [] then Inl IndexOutOfRange
      else
        (let dc = discordChannel (cfgChannels (fst w)) (params m ! 0) in
         if dc = [] then Inr w
         else if name = currentNick env
         then (let discordID = tag m ''+discord'' in
               if discordID \<noteq> [] then Inr (echoRecord msgID discordID (fst w), snd w)
               else Inr w)
         else if length (params m) < 2 then Inl IndexOutOfRange
         else
           (let body0 = params m ! 1;
                body1 = (if replyID \<noteq> [] then TrimPrefix body0 (currentNick env @ '': '')
                         else body0)
            in if body1 = [] then Inl IndexOutOfRange
               else
                 (let ctcp = (body1 ! 0 = CHR 0x01);
                      trimmed = Trim (drop 1 body1) [CHR 0x01];
                      verb = fst (Cut trimmed (CHR '' ''));
                      data = fst (snd (Cut trimmed (CHR '' '')));
                      body = (if ctcp then fItalics # data else body1)
                  in if ctcp \<and> verb \<noteq> ''ACTION'' then Inr w
                     else if CHR '' '' \<notin> set body \<and> patternMediaLink_MatchString body
                     then Inr (discordSend env msgID dc body replyID
                                 (discordSend env [] dc (fBold # ''<'' @ name @ ''>'') replyID w))
                     else Inr (discordSend env msgID dc
                                 (fBold # ''<'' @ name @ ''>'' @ [fReset] @ '' '' @ body)
                                 replyID w)))))"

text \<open>
  The second \<open>switch\<close> (lines 432 to 523). \<open>name\<close> is \<open>m.Prefix.Name\<close>, which the handler
  has read before.
\<close>

definition relay ::
  "ircEnv \<Rightarrow> ircMessage \<Rightarrow> string \<Rightarrow> string \<Rightarrow> string \<Rightarrow> world \<Rightarrow> fault + world" where
  "relay env m name msgID replyID w =
     (let ps = params m; chans = map fst (cfgChannels (fst w)); who = fItalics # name @ [fReset] in
      if command m = ''NICK''
      then (if chans = [] then Inr w
            else if ps = [] then Inl IndexOutOfRange
            else Inr (foldl (\<lambda>w' dc. discordSend env msgID dc
                                        (who @ '' is now known as '' @ ps ! 0) replyID w')
                        w chans))
      else if command m = ''JOIN''
      then (if ps = [] then Inl IndexOutOfRange
            else (let dc = discordChannel (cfgChannels (fst w)) (ps ! 0) in
                  if dc = [] then Inr w
                  else Inr (discordSend env msgID dc (who @ '' has joined the channel'')
                              replyID w)))
      else if command m = ''PART''
      then (if ps = [] then Inl IndexOutOfRange
            else (let dc = discordChannel (cfgChannels (fst w)) (ps ! 0) in
                  if dc = [] then Inr w
                  else if 1 < length ps
                  then Inr (discordSend env msgID dc
                              (who @ '' has left the channel: '' @ ps ! 1) replyID w)
                  else Inr (discordSend env msgID dc (who @ '' has left the channel'')
                              replyID w)))
      else if command m = ''KICK''
      then (if ps = [] then Inl IndexOutOfRange
            else (let dc = discordChannel (cfgChannels (fst w)) (ps ! 0);
                      kicked = (\<lambda>p1. fItalics # p1 @ [fReset]
                                      @ '' was kicked off the channel by '' @ name)
                  in if dc = [] then Inr w
                     else if 2 < length ps
                     then Inr (discordSend env msgID dc (kicked (ps ! 1) @ '': '' @ ps ! 2)
                                 replyID w)
                     else if length ps < 2 then Inl IndexOutOfRange
                     else Inr (discordSend env msgID dc (kicked (ps ! 1)) replyID w)))
      else if command m = ''QUIT''
      then Inr (foldl (\<lambda>w' dc. discordSend env msgID dc
                                  (if 0 < length ps then who @ '' has quit: '' @ ps ! 0
                                   else who @ '' has quit'')
                                  replyID w')
                  w chans)
      else if command m = ''REDACT''
      then (if ps = [] then Inl IndexOutOfRange
            else (let dc = discordChannel (cfgChannels (fst w)) (ps ! 0) in
                  if dc = [] then Inr w
                  else if length ps < 2 then Inl IndexOutOfRange
                  else Inr (fst w, snd w @ map (ChannelMessageDelete dc)
                                             (ids (idIRCDiscord (fst w)) (ps ! 1)))))
      else if command m = ''TAGMSG''
      then (if ps = [] then Inl IndexOutOfRange
            else (let dc = discordChannel (cfgChannels (fst w)) (ps ! 0) in
                  if dc = [] then Inr w
                  else if tag m ''+typing'' = ''active'' then Inr (fst w, snd w @ [ChannelTyping dc])
                  else Inr w))
      else if command m = ''PRIVMSG'' then relayPrivmsg env m name msgID replyID w
      else Inr w)"

text \<open>
  \<open>ircHandler\<close>: the state after the message and the calls made, or the panic that
  ends the process. \<open>m.Name\<close> is the field \<open>Name\<close> of the embedded pointer \<open>Prefix\<close>.
\<close>

definition ircHandler :: "ircEnv \<Rightarrow> ircMessage \<Rightarrow> bridge \<Rightarrow> fault + world" where
  "ircHandler env m b =
     (case prefixName m of
        None \<Rightarrow> Inl NilDereference
      | Some name \<Rightarrow>
          if name = currentNick env \<and> command m \<noteq> ''PRIVMSG'' then Inr (b, [])
          else
            (let msgID = tag m ''msgid''; replyID = ircReplyID b m in
             case handshake env m (b, []) of
               Inl f \<Rightarrow> Inl f
             | Inr (handled, w) \<Rightarrow>
                 if handled \<or> \<not> ircReady (fst w) then Inr w
                 else relay env m name msgID replyID w))"

section \<open>The Discord side\<close>

subsection \<open>Library functions\<close>

text \<open>
  \<open>replacerNewline.Replace\<close>: a \<open>strings.Replacer\<close> goes through the string once and, at
  each position, takes the first of its pairs that matches: CR LF, then LF, then CR.
\<close>

fun replacerNewline :: "string \<Rightarrow> string" where
  "replacerNewline (c # d # cs) =
     (if c = CHR 0x0D \<and> d = CHR 0x0A then CHR '' '' # replacerNewline cs
      else if c = CHR 0x0A \<or> c = CHR 0x0D then CHR '' '' # replacerNewline (d # cs)
      else c # replacerNewline (d # cs))"
| "replacerNewline [c] = (if c = CHR 0x0A \<or> c = CHR 0x0D then [CHR '' ''] else [c])"
| "replacerNewline [] = []"

text \<open>
  \<open>strconv.ParseInt(s, 10, 64)\<close>: an optional sign and at least one decimal digit, in
  the range of \<open>int64\<close>; \<open>None\<close> for an error.
\<close>

definition isDecimal :: "char \<Rightarrow> bool" where
  "isDecimal c = (48 \<le> byteval c \<and> byteval c \<le> 57)"

definition parseUint :: "string \<Rightarrow> nat option" where
  "parseUint s =
     (if s = [] \<or> \<not> list_all isDecimal s then None
      else Some (foldl (\<lambda>a c. 10 * a + (byteval c - 48)) 0 s))"

definition ParseInt :: "string \<Rightarrow> int option" where
  "ParseInt s =
     (case s of
        [] \<Rightarrow> None
      | c # cs \<Rightarrow>
          (let neg = (c = CHR ''-'');
               digits = (if c = CHR ''+'' \<or> c = CHR ''-'' then cs else s)
           in case parseUint digits of
                None \<Rightarrow> None
              | Some un \<Rightarrow>
                  if \<not> neg \<and> 2 ^ 63 \<le> un then None
                  else if neg \<and> 2 ^ 63 < un then None
                  else Some (if neg then - int un else int un)))"

text \<open>The verbs \<open>%06X\<close> and \<open>%02d\<close> of \<open>fmt.Sprintf\<close>.\<close>

definition hexDigit :: "nat \<Rightarrow> char" where
  "hexDigit d = (if d < 10 then byte (48 + d) else byte (55 + d))"

fun hexStr :: "nat \<Rightarrow> string" where
  "hexStr n = (if n < 16 then [hexDigit n] else hexStr (n div 16) @ [hexDigit (n mod 16)])"

fun decStr :: "nat \<Rightarrow> string" where
  "decStr n = (if n < 10 then [byte (48 + n)] else decStr (n div 10) @ [byte (48 + n mod 10)])"

declare hexStr.simps [simp del]
declare decStr.simps [simp del]

definition pad0 :: "nat \<Rightarrow> string \<Rightarrow> string" where
  "pad0 w s = replicate (w - length s) (CHR ''0'') @ s"

definition fmt06X :: "int \<Rightarrow> string" where
  "fmt06X v = (if 0 \<le> v then pad0 6 (hexStr (nat v)) else CHR ''-'' # pad0 5 (hexStr (nat (- v))))"

definition fmt02d :: "nat \<Rightarrow> string" where
  "fmt02d v = pad0 2 (decStr v)"

text \<open>\<open>fnv.New32()\<close>: the 32-bit FNV-1 hash, multiply and then exclusive or.\<close>

definition fnv32 :: "string \<Rightarrow> 32 word" where
  "fnv32 s = foldl (\<lambda>h c. xor (h * 16777619) (of_nat (byteval c))) 2166136261 s"

subsection \<open>The markdown tree walker: \<open>discordIRCFormat\<close>\<close>

text \<open>
  Modelled from the spec: the node type and the function \<open>Walk\<close> of the package
  \<open>discord-formatting\<close>, which is not part of the repository. The variants are those
  the visitor of \<open>discordIRCFormat\<close> has a case for; a container (bold, italics,
  underline, strikethrough, block quote, spoiler) holds its children and is visited
  on entering and on leaving, a leaf is visited once.
\<close>

datatype node =
    TextNode string
  | BlockQuoteNode "node list"
  | CodeNode string string
  | SpoilerNode "node list"
  | URLNode string
  | EmojiNode string
  | ChannelMentionNode string
  | RoleMentionNode string
  | UserMentionNode string
  | SpecialMentionNode string
  | TimestampNode string string
  | BoldNode "node list"
  | UnderlineNode "node list"
  | ItalicsNode "node list"
  | StrikethroughNode "node list"

fun Walk :: "(node \<Rightarrow> bool \<Rightarrow> string) \<Rightarrow> node \<Rightarrow> string" where
  "Walk f (BlockQuoteNode cs) =
     f (BlockQuoteNode cs) True @ concat (map (Walk f) cs) @ f (BlockQuoteNode cs) False"
| "Walk f (SpoilerNode cs) =
     f (SpoilerNode cs) True @ concat (map (Walk f) cs) @ f (SpoilerNode cs) False"
| "Walk f (BoldNode cs) =
     f (BoldNode cs) True @ concat (map (Walk f) cs) @ f (BoldNode cs) False"
| "Walk f (UnderlineNode cs) =
     f (UnderlineNode cs) True @ concat (map (Walk f) cs) @ f (UnderlineNode cs) False"
| "Walk f (ItalicsNode cs) =
     f (ItalicsNode cs) True @ concat (map (Walk f) cs) @ f (ItalicsNode cs) False"
| "Walk f (StrikethroughNode cs) =
     f (StrikethroughNode cs) True @ concat (map (Walk f) cs) @ f (StrikethroughNode cs) False"
| "Walk f n = f n True"

text \<open>A \<open>discordgo.MessageCreate\<close>, with the fields \<open>discordMessage\<close> reads.\<close>

record discordMsg =
  dID :: string
  dChannelID :: string
  dGuildID :: string
  dContent :: string
  dAuthorID :: string
  dUsername :: string
  dAccentColor :: int
  dMemberNick :: "string option"
  dReference :: "string option"
  dAttachments :: "string list"

text \<open>
  What the Discord handlers are given from outside: the identity of the bridge
  (\<open>s.State.User.ID\<close>), whether the IRC server has the redaction capability, the parser
  of \<open>discord-formatting\<close> (the nodes under the root of the tree), the roster
  (\<open>s.State.Channel\<close>, \<open>Role\<close> and \<open>Member\<close>, giving the name or the nickname, \<open>None\<close>
  for an error), \<open>State.MessageColor\<close>, and the clock: \<open>timeFormat layout unix\<close> is
  \<open>time.Unix(unix, 0).Local().Format(layout)\<close>, \<open>sinceNow unix\<close> is
  \<open>time.Now().Sub(t)\<close> and \<open>durationString\<close> is \<open>Duration.String\<close>.
\<close>

record discordEnv =
  selfID :: string
  capRedact :: bool
  parse :: "string \<Rightarrow> node list"
  stateChannel :: "string \<Rightarrow> string option"
  stateRole :: "string \<Rightarrow> string \<Rightarrow> string option"
  stateMember :: "string \<Rightarrow> string \<Rightarrow> string option"
  messageColor :: "discordMsg \<Rightarrow> int"
  timeFormat :: "string \<Rightarrow> int \<Rightarrow> string"
  sinceNow :: "int \<Rightarrow> int"
  durationString :: "int \<Rightarrow> string"

text \<open>The \<open>TimestampNode\<close> case, lines 613 to 646.\<close>

definition visitTimestamp :: "discordEnv \<Rightarrow> string \<Rightarrow> string \<Rightarrow> string" where
  "visitTimestamp env stamp fmt =
     (case ParseInt stamp of
        None \<Rightarrow> ''<invalid-timestamp>''
      | Some unix \<Rightarrow>
          if fmt = ''t'' then timeFormat env ''15:04 MST'' unix
          else if fmt = ''T'' then timeFormat env ''15:04:05 MST'' unix
          else if fmt = ''d'' then timeFormat env ''2006/01/02 MST'' unix
          else if fmt = ''D'' then timeFormat env ''January 02, 2006 MST'' unix
          else if fmt = ''f'' then timeFormat env ''January 02, 2006 at 15:04 MST'' unix
          else if fmt = ''F'' then timeFormat env ''Monday, January 02, 2006 at 15:04 MST'' unix
          else if fmt = ''R''
          then (let d = sinceNow env unix in
                if 0 < d then durationString env d @ '' ago''
                else ''in '' @ durationString env d)
          else ''<invalid-timestamp>'')"

text \<open>
  The visitor of \<open>discordIRCFormat\<close> (lines 539 to 656): what one call writes to the
  string builder. The quotation marks are U+201C and U+201D.
\<close>

fun visit :: "discordEnv \<Rightarrow> string \<Rightarrow> node \<Rightarrow> bool \<Rightarrow> string" where
  "visit env guildID (TextNode txt) entering = (if entering then txt else [])"
| "visit env guildID (BlockQuoteNode cs) entering =
     (if entering then encodeRune 0x201C else encodeRune 0x201D)"
| "visit env guildID (CodeNode language txt) entering =
     (if entering
      then fMonospace # ''`'' @ (if language \<noteq> [] then language @ '' '' else []) @ txt
           @ ''`'' @ [fMonospace]
      else [])"
| "visit env guildID (SpoilerNode cs) entering =
     (if entering then fReverse # ''||'' else ''||'' @ [fReverse])"
| "visit env guildID (URLNode url) entering = (if entering then url else [])"
| "visit env guildID (EmojiNode txt) entering = (if entering then '':'' @ txt @ '':'' else [])"
| "visit env guildID (ChannelMentionNode i) entering =
     (if entering
      then (case stateChannel env i of Some name \<Rightarrow> ''#'' @ name | None \<Rightarrow> ''#invalid-channel'')
      else [])"
| "visit env guildID (RoleMentionNode i) entering =
     (if entering
      then (case stateRole env guildID i of Some name \<Rightarrow> ''@'' @ name | None \<Rightarrow> ''@invalid-role'')
      else [])"
| "visit env guildID (UserMentionNode i) entering =
     (if entering
      then (case stateMember env guildID i of Some nick \<Rightarrow> ''@'' @ nick | None \<Rightarrow> ''@invalid-user'')
      else [])"
| "visit env guildID (SpecialMentionNode mention) entering =
     (if entering then ''@'' @ mention else [])"
| "visit env guildID (TimestampNode stamp fmt) entering =
     (if entering then visitTimestamp env stamp fmt else [])"
| "visit env guildID (BoldNode cs) entering = [fBold]"
| "visit env guildID (UnderlineNode cs) entering = [fUnderline]"
| "visit env guildID (ItalicsNode cs) entering = [fItalics]"
| "visit env guildID (StrikethroughNode cs) entering = [fStrikethrough]"

definition walkAll :: "discordEnv \<Rightarrow> string \<Rightarrow> node list \<Rightarrow> string" where
  "walkAll env guildID ns = concat (map (Walk (visit env guildID)) ns)"

definition discordIRCFormat :: "discordEnv \<Rightarrow> string \<Rightarrow> string \<Rightarrow> string" where
  "discordIRCFormat env guildID m = walkAll env guildID (parse env m)"

subsection \<open>\<open>discordMessage\<close>\<close>

text \<open>Lines 674 to 679: the IRC message a Discord message reference points to.\<close>

definition discordReplyID :: "bridge \<Rightarrow> discordMsg \<Rightarrow> string" where
  "discordReplyID b m =
     (case dReference m of
        None \<Rightarrow> []
      | Some ref \<Rightarrow>
          (let l = ids (idDiscordIRC b) ref in if 0 < length l then l ! 0 else []))"

definition validColors :: "nat list" where
  "validColors = [2, 3, 4, 6, 7, 8, 9, 10, 11, 12, 13]"

text \<open>Lines 681 to 693: the colour code put in front of the name (\<open>int\<close> has 64 bits).\<close>

definition authorColor :: "discordEnv \<Rightarrow> discordMsg \<Rightarrow> string" where
  "authorColor env m =
     (let c0 = messageColor env m;
          colorCode = (if c0 = 0 then dAccentColor m else c0)
      in if colorCode \<noteq> 0 then fColorHex # fmt06X colorCode
         else fColor # fmt02d (validColors ! (unat (fnv32 (dUsername m)) mod length validColors)))"

text \<open>Lines 695 to 697: the name shown for the author.\<close>

definition displayName :: "discordMsg \<Rightarrow> string \<Rightarrow> string" where
  "displayName m memberNick = (if memberNick = [] then dUsername m else memberNick)"

text \<open>Lines 698 to 701: the zero-width space put after the first rune of the name.\<close>

definition splitNick :: "string \<Rightarrow> string" where
  "splitNick nick =
     (if 1 < length nick
      then (case DecodeRuneInString nick of
              (r, width) \<Rightarrow> (encodeRune r @ encodeRune 0x200B) @ drop width nick)
      else nick)"

definition senderPrefix :: "discordEnv \<Rightarrow> discordMsg \<Rightarrow> string \<Rightarrow> string" where
  "senderPrefix env m memberNick =
     ''<'' @ authorColor env m @ splitNick (displayName m memberNick) @ [fReset] @ ''> ''"

text \<open>\<open>ircWrite\<close>: the message is dropped while there is no connection.\<close>

definition ircWrite :: "discordEnv \<Rightarrow> bridge \<Rightarrow> ircMessage \<Rightarrow> action list" where
  "ircWrite env b m =
     (if \<not> ircClientSet b then []
      else if command m = ''REDACT'' \<and> \<not> capRedact env then []
      else [WriteMessage m])"

definition relayedPrivmsg :: "discordMsg \<Rightarrow> string \<Rightarrow> string \<Rightarrow> string \<Rightarrow> ircMessage" where
  "relayedPrivmsg m replyID ic txt =
     \<lparr>tags = [(''+discord'', dID m), (''+draft/reply'', replyID)], prefixName = None,
      command = ''PRIVMSG'', params = [ic, txt]\<rparr>"

text \<open>
  \<open>discordMessage\<close>: the messages handed to the IRC connection, or the panic that ends
  the process (\<open>m.Member\<close> is a pointer, nil for a message without a guild member).
\<close>

definition discordMessage :: "discordEnv \<Rightarrow> bridge \<Rightarrow> discordMsg \<Rightarrow> fault + action list" where
  "discordMessage env b m =
     (if dAuthorID m = selfID env then Inr []
      else
        (case map_of (cfgChannels b) (dChannelID m) of
           None \<Rightarrow> Inr []
         | Some ic \<Rightarrow>
             (let replyID = discordReplyID b m in
              case dMemberNick m of
                None \<Rightarrow> Inl NilDereference
              | Some memberNick \<Rightarrow>
                  (let pre = senderPrefix env m memberNick;
                       body = replacerNewline (discordIRCFormat env (dGuildID m) (dContent m))
                   in Inr ((if 0 < length (dContent m)
                            then ircWrite env b (relayedPrivmsg m replyID ic (pre @ body))
                            else [])
                           @ concat (map (\<lambda>url. ircWrite env b (relayedPrivmsg m replyID ic (pre @ url)))
                                         (dAttachments m)))))))"

section \<open>Sample inputs\<close>

text \<open>
  A bridge that has completed the handshake with one configured channel pair, and the
  surroundings of the two handlers, for the evaluations below. The first call of
  \<open>ChannelMessageSendComplex\<close> answers with the identifier \<open>7\<close>, every later call with
  \<open>5\<close>; \<open>discordTransformPart\<close> finds nothing to rewrite.
\<close>

definition sampleEnv :: ircEnv where
  "sampleEnv = \<lparr>currentNick = ''bridge'',
                 sendComplex = (\<lambda>n. if n = 0 then Some ''7'' else Some ''5''),
                 discordTransformPart = (\<lambda>channel msg. msg)\<rparr>"

definition sampleBridge :: bridge where
  "sampleBridge = \<lparr>cfgChannels = [(''100'', ''#chan'')], ircReady = True, ircClientSet = True,
                    idIRCDiscord = Map.empty, idDiscordIRC = Map.empty, sent = 0\<rparr>"

definition sampleDiscordEnv :: discordEnv where
  "sampleDiscordEnv = \<lparr>selfID = ''1'', capRedact = True, parse = (\<lambda>s. [TextNode s]),
                        stateChannel = (\<lambda>i. None), stateRole = (\<lambda>g i. None),
                        stateMember = (\<lambda>g i. None), messageColor = (\<lambda>m. 255),
                        timeFormat = (\<lambda>layout unix. layout), sinceNow = (\<lambda>unix. 0),
                        durationString = (\<lambda>d. ''0s'')\<rparr>"

definition sampleMsg :: discordMsg where
  "sampleMsg = \<lparr>dID = ''d9'', dChannelID = ''100'', dGuildID = ''g'', dContent = ''hi'',
                 dAuthorID = ''2'', dUsername = ''bob'', dAccentColor = 0,
                 dMemberNick = Some [], dReference = Some ''d1'', dAttachments = []\<rparr>"

text \<open>
  The operation \<open>recordPair(sourceID, targetID)\<close> in the words of the specification, on
  the pair of maps \<open>(bySourceID, byTargetID)\<close>.
\<close>

definition recordPair_spec :: "string \<Rightarrow> string \<Rightarrow> idmap \<times> idmap \<Rightarrow> idmap \<times> idmap" where
  "recordPair_spec sourceID targetID st =
     ((fst st)(sourceID \<mapsto> ids (fst st) sourceID @ [targetID]),
      (snd st)(targetID \<mapsto> ids (snd st) targetID @ [sourceID]))"

text \<open>
  \<open>sendsWith r acts\<close>: every message sent to Discord among the calls \<open>acts\<close> carries
  the reply reference \<open>r\<close>.
\<close>

definition sendsWith :: "string \<Rightarrow> action list \<Rightarrow> bool" where
  "sendsWith r acts =
     list_all (\<lambda>a. case a of ChannelMessageSendComplex ch txt r' \<Rightarrow> r' = r | _ \<Rightarrow> True) acts"

text \<open>\<open>noNewline s\<close>: the string holds neither a line feed nor a carriage return.\<close>

definition noNewline :: "string \<Rightarrow> bool" where
  "noNewline s = (CHR 0x0A \<notin> set s \<and> CHR 0x0D \<notin> set s)"

text \<open>
  The attributes whose markers are open at the end of the output of \<open>discordFormat\<close>:
  \<open>prevStyle\<close> is set to the style whose opening markers are written and cleared when
  the closing markers are written.
\<close>

definition openAtEnd :: "string \<Rightarrow> ircStyle" where
  "openAtEnd msg = prevStyle (fmtLoop (msg @ [fReset]) fmtInit)"

text \<open>
  What holds at the head of the loop while the appended reset has not been passed: the
  index is not beyond it, and a raw span that is open has its closing backtick ahead.
\<close>

definition fmtInv :: "string \<Rightarrow> fmtState \<Rightarrow> bool" where
  "fmtInv msg s =
     (pos s \<le> length msg \<and> (raw s \<longrightarrow> CHR ''`'' \<in> set (drop (pos s) (msg @ [fReset]))))"

section \<open>Properties of the control-code parser\<close>

lemma zwsp_bytes: "zwsp = [CHR 0xE2, CHR 0x80, CHR 0x8B]"
  by (simp add: zwsp_def encodeRune_def byte_def char_of_eq_iff)

lemmas fmt_eval = discordFormat_def fmtLoop.simps fmtStep_def fmtInit_def fmtSwitch_def scanURL_def
  fmtEmit_def fmt_bytes patternURL_FindStringIndex_def schemeLen_def Let_def noStyle_def
  closeMarkers_def openMarkers_def zwsp_bytes isDigit_def skipColor_def byteval_def

lemma IndexByte_neg: "IndexByte s c < 0 \<longleftrightarrow> c \<notin> set s"
  by (induction s) (auto simp: Let_def)

lemma IndexByte_zero: "IndexByte s c = 0 \<longleftrightarrow> prefix [c] s"
proof (cases s)
  case Nil
  then show ?thesis by simp
next
  case (Cons x xs)
  with IndexByte_ge [of xs c] show ?thesis by (auto simp: Let_def)
qed

lemma IndexByte_pos: "0 < IndexByte s c \<longleftrightarrow> c \<in> set s \<and> \<not> prefix [c] s"
  using IndexByte_neg [of s c] IndexByte_zero [of s c] by auto

lemma scanURL_fields:
  "pos (scanURL msg s) = pos s" "raw (scanURL msg s) = raw s" "sb (scanURL msg s) = sb s"
  "prevStyle (scanURL msg s) = prevStyle s" "nextStyle (scanURL msg s) = nextStyle s"
  by (simp_all add: scanURL_def split: option.splits)

lemma fmtSwitch_backtick:
  "msg ! pos s = CHR ''`'' \<Longrightarrow>
   fmtSwitch msg s =
     ((if \<not> raw s
       then (if 0 < IndexByte (drop (pos s + 1) msg) (CHR ''`'') then s\<lparr>raw := True\<rparr> else s)
       else s\<lparr>raw := False\<rparr>),
      Some ''`'')"
  by (simp add: fmtSwitch_def fmt_bytes Let_def)

text \<open>
  Claim C3, as amended. A backtick met outside a raw span turns raw mode on exactly
  when the rest of the input holds a backtick and does not start with one: a closing
  backtick that follows at once does not open a span. The backtick itself is always
  written as it is, without a backslash, after the markers of a pending style change.
\<close>

theorem backtick_raw_toggle:
  assumes "msg ! pos s = CHR ''`''" and "\<not> raw s"
  shows "(raw (fmtStep msg s) \<longleftrightarrow>
            CHR ''`'' \<in> set (drop (pos s + 1) msg) \<and> \<not> prefix ''`'' (drop (pos s + 1) msg))
         \<and> sb (fmtStep msg s) =
             (if prevStyle s = nextStyle s then sb s @ ''`''
              else sb s @ closeMarkers (prevStyle s) @ zwsp @ openMarkers (nextStyle s) @ ''`'')"
proof -
  have sw: "fmtSwitch msg (scanURL msg s) =
      ((if 0 < IndexByte (drop (pos s + 1) msg) (CHR ''`'')
        then (scanURL msg s)\<lparr>raw := True\<rparr> else scanURL msg s), Some ''`'')"
    using assms fmtSwitch_backtick [of msg "scanURL msg s"] by (simp add: scanURL_fields)
  show ?thesis
    using assms
    by (simp add: fmtStep_def sw fmtEmit_def Let_def scanURL_fields IndexByte_pos)
qed

theorem backtick_raw_toggle_witness:
  "(''`a`'' @ [fReset]) ! pos fmtInit = CHR ''`'' \<and> \<not> raw fmtInit
   \<and> raw (fmtStep (''`a`'' @ [fReset]) fmtInit)
   \<and> sb (fmtStep (''`a`'' @ [fReset]) fmtInit) = ''`''"
  using backtick_raw_toggle [of "''`a`'' @ [fReset]" fmtInit]
  by (simp add: fmtInit_def noStyle_def)

text \<open>
  Claim C3 as stated fails twice. In \<open>``\<close> the closing backtick is the next byte and
  raw mode stays off; and a lone backtick comes out as a backtick, not as a backslash
  and a backtick.
\<close>

theorem backtick_claim_counterexample:
  "CHR ''`'' \<in> set (drop 1 (''``'' @ [fReset]))
   \<and> \<not> raw (fmtStep (''``'' @ [fReset]) fmtInit)
   \<and> discordFormat ''`'' = ''`''
   \<and> discordFormat ''`'' \<noteq> [CHR 0x5C, CHR ''`'']"
  by (simp add: fmt_eval)

lemma raw_fmtEmit: "raw (fmtEmit msg s w) = raw s"
  by (simp add: fmtEmit_def Let_def)

lemma raw_fmtSwitch:
  "raw (fst (fmtSwitch msg s))
   = (if msg ! pos s = CHR ''`''
      then \<not> raw s \<and> 0 < IndexByte (drop (pos s + 1) msg) (CHR ''`'')
      else raw s)"
  by (simp add: fmtSwitch_def Let_def fmt_bytes)

lemma raw_fmtStep:
  "raw (fmtStep msg s)
   = (if msg ! pos s = CHR ''`''
      then \<not> raw s \<and> 0 < IndexByte (drop (pos s + 1) msg) (CHR ''`'')
      else raw s)"
proof -
  obtain s' w where sw: "fmtSwitch msg (scanURL msg s) = (s', w)"
    by (cases "fmtSwitch msg (scanURL msg s)")
  have "raw s' = (if msg ! pos s = CHR ''`''
      then \<not> raw s \<and> 0 < IndexByte (drop (pos s + 1) msg) (CHR ''`'')
      else raw s)"
    using raw_fmtSwitch [of msg "scanURL msg s"] sw by (simp add: scanURL_fields)
  then show ?thesis
    by (cases w) (auto simp: fmtStep_def Let_def sw raw_fmtEmit)
qed

lemma pos_fmtSwitch_eq:
  "pos (fst (fmtSwitch msg s))
   = (if msg ! pos s = fColor \<and> isDigit msg (pos s + 1) then skipColor msg (pos s)
      else if msg ! pos s = fColorHex then pos s + 6
      else pos s)"
  by (simp add: fmtSwitch_def Let_def fmt_bytes)

lemma pos_fmtStep_eq:
  "pos (fmtStep msg s)
   = (if raw s \<and> msg ! pos s \<noteq> CHR ''`'' then pos s + 1
      else if msg ! pos s = fColor \<and> isDigit msg (pos s + 1) then skipColor msg (pos s) + 1
      else if msg ! pos s = fColorHex then pos s + 7
      else pos s + 1)"
proof -
  obtain s' w where sw: "fmtSwitch msg (scanURL msg s) = (s', w)"
    by (cases "fmtSwitch msg (scanURL msg s)")
  have "pos s' = (if msg ! pos s = fColor \<and> isDigit msg (pos s + 1) then skipColor msg (pos s)
      else if msg ! pos s = fColorHex then pos s + 6
      else pos s)"
    using pos_fmtSwitch_eq [of msg "scanURL msg s"] sw by (simp add: scanURL_fields)
  then show ?thesis
    by (cases w) (auto simp: fmtStep_def Let_def sw pos_fmtEmit)
qed

lemma isDigit_skipColor: "isDigit msg (i + 1) \<Longrightarrow> isDigit msg (skipColor msg i)"
  by (simp add: skipColor_def Let_def)

lemma isDigit_before_reset: "isDigit (msg @ [fReset]) j \<Longrightarrow> j < length msg"
proof -
  assume d: "isDigit (msg @ [fReset]) j"
  then have "j < length msg + 1" by (simp add: isDigit_def)
  moreover have "j \<noteq> length msg"
    using d by (auto simp: isDigit_def fmt_bytes byteval_def)
  ultimately show ?thesis by simp
qed

lemma in_drop_Suc:
  assumes "x \<in> set (drop i xs)" and "i < length xs" and "xs ! i \<noteq> x"
  shows "x \<in> set (drop (Suc i) xs)"
proof -
  have "drop i xs = xs ! i # drop (Suc i) xs"
    using assms(2) by (rule Cons_nth_drop_Suc [symmetric])
  with assms(1,3) show ?thesis by auto
qed

lemma fmtInv_step:
  assumes hex: "fColorHex \<notin> set msg" and inv: "fmtInv msg s" and lt: "pos s < length msg"
  shows "fmtInv msg (fmtStep (msg @ [fReset]) s)"
proof -
  let ?M = "msg @ [fReset]"
  have c: "?M ! pos s = msg ! pos s" using lt by (simp add: nth_append)
  have "msg ! pos s \<in> set msg" using lt by simp
  with hex c have nohex: "?M ! pos s \<noteq> fColorHex" by auto
  have "pos (fmtStep ?M s) \<le> length msg"
  proof (cases "\<not> (raw s \<and> ?M ! pos s \<noteq> CHR ''`'') \<and> ?M ! pos s = fColor
                \<and> isDigit ?M (pos s + 1)")
    case True
    then have "isDigit ?M (skipColor ?M (pos s))" by (simp add: isDigit_skipColor)
    then have "skipColor ?M (pos s) < length msg" by (rule isDigit_before_reset)
    with True show ?thesis by (auto simp: pos_fmtStep_eq fmt_bytes)
  next
    case False
    with nohex have "pos (fmtStep ?M s) = pos s + 1"
      by (simp add: pos_fmtStep_eq) blast
    with lt show ?thesis by simp
  qed
  moreover have "CHR ''`'' \<in> set (drop (pos (fmtStep ?M s)) ?M)" if r: "raw (fmtStep ?M s)"
  proof (cases "?M ! pos s = CHR ''`''")
    case True
    with r have "0 < IndexByte (drop (pos s + 1) ?M) (CHR ''`'')" by (simp add: raw_fmtStep)
    moreover from True have "pos (fmtStep ?M s) = pos s + 1"
      by (simp add: pos_fmtStep_eq fmt_bytes)
    ultimately show ?thesis by (simp add: IndexByte_pos)
  next
    case False
    with r have rs: "raw s" by (simp add: raw_fmtStep)
    with inv have "CHR ''`'' \<in> set (drop (pos s) ?M)" unfolding fmtInv_def by blast
    moreover have "pos s < length ?M" using lt by simp
    ultimately have "CHR ''`'' \<in> set (drop (Suc (pos s)) ?M)"
      using False by (intro in_drop_Suc) auto
    moreover from rs False have "pos (fmtStep ?M s) = pos s + 1" by (simp add: pos_fmtStep_eq)
    ultimately show ?thesis by simp
  qed
  ultimately show ?thesis by (simp add: fmtInv_def)
qed

lemma fmtStep_last:
  assumes inv: "fmtInv msg s" and at: "pos s = length msg"
  shows "prevStyle (fmtStep (msg @ [fReset]) s) = noStyle
         \<and> pos (fmtStep (msg @ [fReset]) s) = length msg + 1
         \<and> sb (fmtStep (msg @ [fReset]) s) = sb s @ closeMarkers (prevStyle s)"
proof -
  let ?M = "msg @ [fReset]"
  have c: "?M ! pos s = fReset" using at by simp
  have nr: "\<not> raw s" using inv at by (auto simp: fmtInv_def fmt_bytes)
  have sw: "fmtSwitch ?M (scanURL ?M s) = ((scanURL ?M s)\<lparr>nextStyle := noStyle\<rparr>, Some [])"
    using c by (simp add: fmtSwitch_def Let_def scanURL_fields fmt_bytes)
  have cl: "closeMarkers noStyle = []" by (simp add: closeMarkers_def noStyle_def)
  have st: "fmtStep ?M s
      = (let s'' = fmtEmit ?M ((scanURL ?M s)\<lparr>nextStyle := noStyle\<rparr>) []
         in s''\<lparr>pos := pos s'' + 1\<rparr>)"
    using nr by (simp add: fmtStep_def sw)
  show ?thesis
    unfolding st using at cl by (auto simp: Let_def fmtEmit_def scanURL_fields)
qed

lemma fmtLoop_closed:
  assumes hex: "fColorHex \<notin> set msg"
  shows "M = msg @ [fReset] \<Longrightarrow> fmtInv msg s \<Longrightarrow> prevStyle (fmtLoop M s) = noStyle"
proof (induction M s rule: fmtLoop.induct)
  case (1 M s)
  from "1.prems" have le: "pos s \<le> length msg" by (simp add: fmtInv_def)
  show ?case
  proof (cases "pos s < length msg")
    case True
    with "1.prems" have run: "pos s < length M" by simp
    have "fmtInv msg (fmtStep M s)"
      using fmtInv_step [OF hex "1.prems"(2) True] "1.prems"(1) by simp
    with "1.IH" [OF run "1.prems"(1)] have "prevStyle (fmtLoop M (fmtStep M s)) = noStyle" .
    with run show ?thesis by (subst fmtLoop.simps) simp
  next
    case False
    with le have at: "pos s = length msg" by simp
    with "1.prems" have run: "pos s < length M" by simp
    from fmtStep_last [OF "1.prems"(2) at] "1.prems"(1)
    have l: "prevStyle (fmtStep M s) = noStyle" "pos (fmtStep M s) = length M" by simp_all
    have "fmtLoop M (fmtStep M s) = fmtStep M s"
      by (subst fmtLoop.simps) (simp add: l)
    with run l show ?thesis by (subst fmtLoop.simps) simp
  qed
qed

text \<open>
  Without a hex-colour marker in the input, the appended reset is always reached and
  interpreted, and no attribute is left open at the end of the output.
\<close>

lemma discordFormat_closed: "fColorHex \<notin> set msg \<Longrightarrow> openAtEnd msg = noStyle"
  unfolding openAtEnd_def by (rule fmtLoop_closed) (simp_all add: fmtInv_def fmtInit_def)


text \<open>
  Claim C4 fails where a hex-colour marker has fewer than six bytes after it: the skip
  of six bytes passes over the reset appended to the input, and the bold run of
  \<open>\\x02a\\x04\<close> is opened (zero-width space, two asterisks) and never closed. Without
  a hex-colour marker the claim holds (\<open>discordFormat_closed\<close>).
\<close>

theorem hex_color_skips_reset:
  "discordFormat ([fBold] @ ''a'' @ [fColorHex]) = [CHR 0xE2, CHR 0x80, CHR 0x8B] @ ''**a''
   \<and> openAtEnd ([fBold] @ ''a'' @ [fColorHex]) = noStyle\<lparr>bold := True\<rparr>"
  by (simp add: fmt_eval openAtEnd_def)

text \<open>
  Claim C5, as amended. The 13 bytes \<open>\\x02hello\\x0F world\<close> give a zero-width space,
  \<open>**hello**\<close>, a zero-width space and \<open> world\<close>: the parser writes the boundary
  character at every change of style, also at the first one.
\<close>

theorem hello_world_bytes:
  "discordFormat ([CHR 0x02] @ ''hello'' @ [CHR 0x0F] @ '' world'')
   = [CHR 0xE2, CHR 0x80, CHR 0x8B] @ ''**hello**'' @ [CHR 0xE2, CHR 0x80, CHR 0x8B] @ '' world''"
  by (simp add: fmt_eval)

text \<open>Claim C5 as stated asks for an output that starts with the asterisks.\<close>

theorem hello_world_counterexample:
  "length ([CHR 0x02] @ ''hello'' @ [CHR 0x0F] @ '' world'') = 13
   \<and> discordFormat ([CHR 0x02] @ ''hello'' @ [CHR 0x0F] @ '' world'')
     \<noteq> ''**hello**'' @ [CHR 0xE2, CHR 0x80, CHR 0x8B] @ '' world''"
  by (simp add: fmt_eval)







section \<open>Properties of the correlation store and of the IRC handler\<close>

lemma echoRecord_recordPair:
  "(idIRCDiscord (echoRecord msgID discordID b), idDiscordIRC (echoRecord msgID discordID b))
   = recordPair_spec msgID discordID (idIRCDiscord b, idDiscordIRC b)"
  by (simp add: echoRecord_def recordPair_spec_def)

lemma sendRecord_recordPair:
  assumes "ids (idIRCDiscord b) mid = ids (idDiscordIRC b) mid" and "mid \<noteq> ircID"
  shows "(idIRCDiscord (sendRecord ircID mid b), idDiscordIRC (sendRecord ircID mid b))
         = recordPair_spec ircID mid (idIRCDiscord b, idDiscordIRC b)"
  using assms by (simp add: sendRecord_def recordPair_spec_def Let_def ids_def)

lemma recordPair_example:
  "ids (fst (recordPair_spec ''irc1'' ''discord2''
              (recordPair_spec ''irc1'' ''discord1'' (Map.empty, Map.empty)))) ''irc1''
     = [''discord1'', ''discord2'']
   \<and> ids (snd (recordPair_spec ''irc1'' ''discord2''
                 (recordPair_spec ''irc1'' ''discord1'' (Map.empty, Map.empty)))) ''discord2''
     = [''irc1'']"
  by (simp add: recordPair_spec_def ids_def)

lemma echoRecord_example:
  "ids (idIRCDiscord (echoRecord ''irc1'' ''discord2''
                       (echoRecord ''irc1'' ''discord1'' sampleBridge))) ''irc1''
     = [''discord1'', ''discord2'']
   \<and> ids (idDiscordIRC (echoRecord ''irc1'' ''discord2''
                          (echoRecord ''irc1'' ''discord1'' sampleBridge))) ''discord2''
     = [''irc1'']"
  by (simp add: echoRecord_def sampleBridge_def ids_def)

lemma sendRecord_example:
  "ids (idIRCDiscord (sendRecord ''irc1'' ''discord2''
                       (sendRecord ''irc1'' ''discord1'' sampleBridge))) ''irc1''
     = [''discord1'', ''discord2'']
   \<and> ids (idDiscordIRC (sendRecord ''irc1'' ''discord2''
                          (sendRecord ''irc1'' ''discord1'' sampleBridge))) ''discord2''
     = [''irc1'']"
  by (simp add: sendRecord_def sampleBridge_def ids_def Let_def)

text \<open>
  Claim C1 holds for the pair recorded from an echo (\<open>echoRecord_recordPair\<close>) and
  its example holds on both paths, but the general statement fails in \<open>discordSend\<close>,
  whose second line reads the list of the new identifier from \<open>idIRCDiscord\<close> and not
  from \<open>idDiscordIRC\<close>. Two IRC messages \<open>5\<close> and \<open>9\<close> are
  relayed; Discord names the first copy \<open>7\<close> and the second \<open>5\<close>. The list of
  \<open>idDiscordIRC\<close> for \<open>5\<close> becomes \<open>[7, 9]\<close>, where appending the source to the list
  recorded before gives \<open>[9]\<close>.
\<close>

theorem discordSend_reads_wrong_map:
  "ids (idDiscordIRC (fst (discordSend sampleEnv ''9'' ''100'' ''x'' []
                            (discordSend sampleEnv ''5'' ''100'' ''x'' [] (sampleBridge, [])))))
       ''5''
     = [''7'', ''9'']
   \<and> ids (snd (recordPair_spec ''9'' ''5''
                 (recordPair_spec ''5'' ''7'' (Map.empty, Map.empty)))) ''5''
     = [''9'']"
  by (simp add: discordSend_def sendRecord_def sampleEnv_def sampleBridge_def ids_def Let_def
      recordPair_spec_def)

lemmas handler_eval = ircHandler_def sampleEnv_def sampleBridge_def tag_def ircReplyID_def
  ids_def handshake_def relay_def relayPrivmsg_def discordChannel_def Let_def TrimPrefix_def

text \<open>
  Claim C2 fails for a \<open>PRIVMSG\<close> whose text is empty, and for one whose text is only
  the reply prefix \<open>bridge: \<close> on a reply to a relayed message: \<open>body[0]\<close> is read from
  an empty string and the handler panics.
\<close>

theorem ircHandler_empty_body_panics:
  "ircHandler sampleEnv
     \<lparr>tags = [], prefixName = Some ''alice'', command = ''PRIVMSG'', params = [''#chan'', []]\<rparr>
     sampleBridge
     = Inl IndexOutOfRange
   \<and> ircHandler sampleEnv
       \<lparr>tags = [(''+draft/reply'', ''m1'')], prefixName = Some ''alice'', command = ''PRIVMSG'',
        params = [''#chan'', ''bridge: '']\<rparr>
       (sampleBridge\<lparr>idIRCDiscord := [''m1'' \<mapsto> [''d1'']]\<rparr>)
     = Inl IndexOutOfRange"
  by (simp add: handler_eval)


lemma sendsWith_append: "sendsWith r (xs @ ys) \<longleftrightarrow> sendsWith r xs \<and> sendsWith r ys"
  by (simp add: sendsWith_def)

lemma snd_discordSend:
  "snd (discordSend env i c t r w)
   = snd w @ [ChannelMessageSendComplex c (discordTransform env c (discordFormat t)) r]"
  by (simp add: discordSend_def Let_def split: option.splits)

lemma cfg_discordSend: "cfgChannels (fst (discordSend env i c t r w)) = cfgChannels (fst w)"
  by (simp add: discordSend_def sendRecord_def Let_def split: option.splits)

lemma sendsWith_discordSend:
  "sendsWith r (snd w) \<Longrightarrow> sendsWith r (snd (discordSend env i c t r w))"
  by (simp add: snd_discordSend sendsWith_def)

lemma sendsWith_foldl:
  "sendsWith r (snd w) \<Longrightarrow>
   sendsWith r (snd (foldl (\<lambda>w' dc. discordSend env i dc (t w' dc) r w') w chans))"
  by (induction chans arbitrary: w) (simp_all add: sendsWith_discordSend)

lemma sendsWith_handshake:
  "handshake env m (b, []) = Inr (h, w) \<Longrightarrow> sendsWith r (snd w)"
  by (auto simp: handshake_def botModes_def sendsWith_def Let_def list_all_iff
      split: if_splits prod.splits)

lemma sendsWith_relayPrivmsg:
  "sendsWith r (snd w) \<Longrightarrow> relayPrivmsg env m name msgID r w = Inr w' \<Longrightarrow> sendsWith r (snd w')"
  by (auto simp: relayPrivmsg_def Let_def sendsWith_discordSend split: if_splits)

lemma sendsWith_simps:
  "sendsWith r []"
  "sendsWith r (WriteMessage im # acts) = sendsWith r acts"
  "sendsWith r (ChannelTyping c # acts) = sendsWith r acts"
  "sendsWith r (ChannelMessageDelete c i # acts) = sendsWith r acts"
  "sendsWith r (ChannelMessageSendComplex c t r' # acts) = (r' = r \<and> sendsWith r acts)"
  by (simp_all add: sendsWith_def)

lemma sendsWith_deletes: "sendsWith r (map (ChannelMessageDelete dc) l)"
  by (induction l) (simp_all add: sendsWith_simps)

lemma sendsWith_relay:
  "sendsWith r (snd w) \<Longrightarrow> relay env m name msgID r w = Inr w' \<Longrightarrow> sendsWith r (snd w')"
  by (auto simp: relay_def Let_def sendsWith_discordSend sendsWith_foldl sendsWith_relayPrivmsg
      sendsWith_append sendsWith_simps sendsWith_deletes
      split: if_splits)

lemma sendsWith_ircHandler:
  assumes "ircHandler env m b = Inr w"
  shows "sendsWith (ircReplyID b m) (snd w)"
proof (cases "prefixName m")
  case None
  with assms show ?thesis by (simp add: ircHandler_def)
next
  case (Some name)
  show ?thesis
  proof (cases "name = currentNick env \<and> command m \<noteq> ''PRIVMSG''")
    case True
    with assms Some show ?thesis by (auto simp: ircHandler_def sendsWith_simps)
  next
    case False
    show ?thesis
    proof (cases "handshake env m (b, [])")
      case (Inl f)
      with assms Some False show ?thesis by (simp add: ircHandler_def Let_def)
    next
      case (Inr hw)
      obtain h w1 where hw: "hw = (h, w1)" by (cases hw)
      have w1: "sendsWith (ircReplyID b m) (snd w1)"
        using Inr hw sendsWith_handshake by blast
      show ?thesis
      proof (cases "h \<or> \<not> ircReady (fst w1)")
        case True
        with assms Some False Inr hw have "w = w1" by (simp add: ircHandler_def Let_def)
        with w1 show ?thesis by simp
      next
        case stay: False
        with assms Some False Inr hw
        have "relay env m name (tag m ''msgid'') (ircReplyID b m) w1 = Inr w"
          by (simp add: ircHandler_def Let_def)
        with w1 show ?thesis by (rule sendsWith_relay)
      qed
    qed
  qed
qed

lemma ircWrite_relayedPrivmsg:
  "ircWrite env b (relayedPrivmsg dm r ic txt)
   = (if ircClientSet b then [WriteMessage (relayedPrivmsg dm r ic txt)] else [])"
  by (simp add: ircWrite_def relayedPrivmsg_def)

lemma tag_relayedPrivmsg: "tag (relayedPrivmsg dm r ic txt) ''+draft/reply'' = r"
  by (simp add: tag_def relayedPrivmsg_def)

lemma discordMessage_reply:
  "discordMessage env b dm = Inr acts \<Longrightarrow> WriteMessage im \<in> set acts \<Longrightarrow>
   tag im ''+draft/reply'' = discordReplyID b dm"
  by (auto simp: discordMessage_def ircWrite_relayedPrivmsg tag_relayedPrivmsg Let_def
      split: if_splits option.splits)

text \<open>
  Claim C6, as amended. Every message the IRC handler sends to Discord carries as
  reply reference the last entry recorded for the reply tag of the IRC message; every
  \<open>PRIVMSG\<close> written for a Discord message carries as reply tag the first entry
  recorded for the message it refers to.
\<close>

theorem reply_target:
  "(ircHandler env m b = Inr w
      \<and> ChannelMessageSendComplex ch txt r \<in> set (snd w)
      \<and> ids (idIRCDiscord b) (tag m ''+draft/reply'') \<noteq> []
    \<longrightarrow> r = last (ids (idIRCDiscord b) (tag m ''+draft/reply'')))
   \<and> (discordMessage denv b dm = Inr acts
        \<and> WriteMessage im \<in> set acts
        \<and> dReference dm = Some ref
        \<and> ids (idDiscordIRC b) ref \<noteq> []
      \<longrightarrow> tag im ''+draft/reply'' = hd (ids (idDiscordIRC b) ref))"
proof (intro conjI impI)
  assume a: "ircHandler env m b = Inr w
      \<and> ChannelMessageSendComplex ch txt r \<in> set (snd w)
      \<and> ids (idIRCDiscord b) (tag m ''+draft/reply'') \<noteq> []"
  then have "sendsWith (ircReplyID b m) (snd w)" using sendsWith_ircHandler by blast
  with a have "r = ircReplyID b m"
    by (auto simp: sendsWith_def list_all_iff)
  with a show "r = last (ids (idIRCDiscord b) (tag m ''+draft/reply''))"
    by (simp add: ircReplyID_def Let_def last_conv_nth)
next
  assume a: "discordMessage denv b dm = Inr acts
        \<and> WriteMessage im \<in> set acts
        \<and> dReference dm = Some ref
        \<and> ids (idDiscordIRC b) ref \<noteq> []"
  then have "tag im ''+draft/reply'' = discordReplyID b dm"
    using discordMessage_reply by blast
  with a show "tag im ''+draft/reply'' = hd (ids (idDiscordIRC b) ref)"
    by (simp add: discordReplyID_def Let_def hd_conv_nth)
qed

lemma replicate_numeral: "replicate (numeral k) c = c # replicate (pred_numeral k) c"
  by (simp add: numeral_eq_Suc)

lemmas discord_eval = replicate_numeral discordMessage_def sampleDiscordEnv_def sampleMsg_def sampleBridge_def
  discordReplyID_def ids_def senderPrefix_def authorColor_def displayName_def splitNick_def
  ircWrite_def relayedPrivmsg_def discordIRCFormat_def walkAll_def Let_def fmt06X_def pad0_def
  hexStr.simps hexDigit_def DecodeRuneInString_def decodeValid_def encodeRune_def byteval_def
  byte_def char_of_eq_iff fmt_bytes

theorem reply_target_witness:
  "ircHandler sampleEnv
     \<lparr>tags = [(''+draft/reply'', ''m1'')], prefixName = Some ''alice'', command = ''JOIN'',
      params = [''#chan'']\<rparr>
     (sampleBridge\<lparr>idIRCDiscord := [''m1'' \<mapsto> [''d1'', ''d2'']]\<rparr>)
     = Inr (discordSend sampleEnv [] ''100'' (fItalics # ''alice'' @ [fReset] @ '' has joined the channel'')
              ''d2'' (sampleBridge\<lparr>idIRCDiscord := [''m1'' \<mapsto> [''d1'', ''d2'']]\<rparr>, []))
   \<and> last (ids [''m1'' \<mapsto> [''d1'', ''d2'']] ''m1'') = ''d2''
   \<and> discordMessage sampleDiscordEnv (sampleBridge\<lparr>idDiscordIRC := [''d1'' \<mapsto> [''i1'', ''i2'']]\<rparr>)
        sampleMsg
      = Inr [WriteMessage
               \<lparr>tags = [(''+discord'', ''d9''), (''+draft/reply'', ''i1'')], prefixName = None,
                command = ''PRIVMSG'',
                params = [''#chan'', ''<'' @ [fColorHex] @ ''0000FFb'' @ zwsp @ ''ob'' @ [fReset] @ ''> hi'']\<rparr>]
   \<and> hd (ids [''d1'' \<mapsto> [''i1'', ''i2'']] ''d1'') = ''i1''"
  using reply_target [of sampleEnv
      "\<lparr>tags = [(''+draft/reply'', ''m1'')], prefixName = Some ''alice'', command = ''JOIN'',
        params = [''#chan'']\<rparr>"
      "sampleBridge\<lparr>idIRCDiscord := [''m1'' \<mapsto> [''d1'', ''d2'']]\<rparr>"
      "discordSend sampleEnv [] ''100'' (fItalics # ''alice'' @ [fReset] @ '' has joined the channel'')
              ''d2'' (sampleBridge\<lparr>idIRCDiscord := [''m1'' \<mapsto> [''d1'', ''d2'']]\<rparr>, [])"
      "''100''" _ "''d2''"]
  by (simp add: handler_eval discord_eval zwsp_bytes)

text \<open>
  Claim C6 as stated fails in the direction from Discord to IRC: with two entries
  recorded for the referenced message, the reply tag is the first and not the last.
\<close>

theorem reply_target_counterexample:
  "discordMessage sampleDiscordEnv (sampleBridge\<lparr>idDiscordIRC := [''d1'' \<mapsto> [''i1'', ''i2'']]\<rparr>)
     sampleMsg
   = Inr [WriteMessage
            \<lparr>tags = [(''+discord'', ''d9''), (''+draft/reply'', ''i1'')], prefixName = None,
             command = ''PRIVMSG'',
             params = [''#chan'', ''<'' @ [fColorHex] @ ''0000FFb'' @ zwsp @ ''ob'' @ [fReset] @ ''> hi'']\<rparr>]
   \<and> last (ids (idDiscordIRC (sampleBridge\<lparr>idDiscordIRC := [''d1'' \<mapsto> [''i1'', ''i2'']]\<rparr>)) ''d1'')
     = ''i2''
   \<and> ''i1'' \<noteq> ''i2''"
  by (simp add: discord_eval zwsp_bytes)

section \<open>Properties of the Discord side\<close>

subsection \<open>Decoding and encoding one rune\<close>

lemma divmod64:
  fixes q c :: nat
  assumes "c < 64"
  shows "(q * 64 + c) div 64 = q" and "(q * 64 + c) mod 64 = c"
  using assms by simp_all

lemma ar2:
  fixes b0 b1 r :: nat
  assumes "0xC2 \<le> b0" "b0 \<le> 0xDF" "0x80 \<le> b1" "b1 \<le> 0xBF" "r = (b0 mod 32) * 64 + b1 mod 64"
  shows "0x80 \<le> r \<and> r < 0x800 \<and> 0xC0 + r div 64 = b0 \<and> 0x80 + r mod 64 = b1"
proof -
  define a b where "a = b0 - 192" and "b = b1 - 128"
  have b0: "b0 = 32 * 6 + a" and a: "2 \<le> a" "a < 32" using assms by (simp_all add: a_def)
  have b1: "b1 = 64 * 2 + b" and b: "b < 64" using assms by (simp_all add: b_def)
  have "b0 mod 32 = a" and "b1 mod 64 = b"
    using a b unfolding b0 b1 by (simp_all only: mod_mult_self4 mod_less)
  then have r: "r = a * 64 + b" by (simp add: assms(5))
  show ?thesis using a b by (simp add: r b0 b1)
qed

lemma ar3:
  fixes b0 b1 b2 r :: nat
  assumes "0xE0 \<le> b0" "b0 \<le> 0xEF" "0x80 \<le> b1" "b1 \<le> 0xBF" "0x80 \<le> b2" "b2 \<le> 0xBF"
    "b0 = 0xE0 \<longrightarrow> 0xA0 \<le> b1" "b0 = 0xED \<longrightarrow> b1 \<le> 0x9F"
    "r = (b0 mod 16) * 4096 + (b1 mod 64) * 64 + b2 mod 64"
  shows "0x800 \<le> r \<and> r < 0x10000 \<and> \<not> (0xD800 \<le> r \<and> r \<le> 0xDFFF)
     \<and> 0xE0 + r div 4096 = b0 \<and> 0x80 + (r div 64) mod 64 = b1 \<and> 0x80 + r mod 64 = b2"
proof -
  define a b c where "a = b0 - 224" and "b = b1 - 128" and "c = b2 - 128"
  have b0: "b0 = 16 * 14 + a" and a: "a < 16" using assms by (simp_all add: a_def)
  have b1: "b1 = 64 * 2 + b" and b: "b < 64" using assms by (simp_all add: b_def)
  have b2: "b2 = 64 * 2 + c" and c: "c < 64" using assms by (simp_all add: c_def)
  have lo: "a = 0 \<longrightarrow> 32 \<le> b" and hi: "a = 13 \<longrightarrow> b < 32"
    using assms(7,8) by (auto simp: b0 b1)
  have "b0 mod 16 = a" and "b1 mod 64 = b" and "b2 mod 64 = c"
    using a b c unfolding b0 b1 b2 by (simp_all only: mod_mult_self4 mod_less)
  then have r: "r = a * 4096 + b * 64 + c" by (simp add: assms(9))
  have r': "r = (a * 64 + b) * 64 + c" by (simp add: r)
  have d1: "r div 64 = a * 64 + b" unfolding r' using c by (rule divmod64)
  have m1: "r mod 64 = c" unfolding r' using c by (rule divmod64)
  have d2: "r div 4096 = a"
  proof -
    have "r div 4096 = (r div 64) div 64" by (simp add: div_mult2_eq)
    also have "\<dots> = a" using b by (simp add: d1)
    finally show ?thesis .
  qed
  have m2: "(r div 64) mod 64 = b" using b by (simp add: d1)
  consider "a = 0" | "0 < a" "a < 13" | "a = 13" | "13 < a" by linarith
  then have range: "0x800 \<le> r \<and> r < 0x10000 \<and> \<not> (0xD800 \<le> r \<and> r \<le> 0xDFFF)"
    using a b c lo hi unfolding r by cases auto
  show ?thesis using range by (simp add: d2 m2 m1 b0 b1 b2)
qed

lemma ar4:
  fixes b0 b1 b2 b3 r :: nat
  assumes "0xF0 \<le> b0" "b0 \<le> 0xF4" "0x80 \<le> b1" "b1 \<le> 0xBF" "0x80 \<le> b2" "b2 \<le> 0xBF"
    "0x80 \<le> b3" "b3 \<le> 0xBF"
    "b0 = 0xF0 \<longrightarrow> 0x90 \<le> b1" "b0 = 0xF4 \<longrightarrow> b1 \<le> 0x8F"
    "r = (b0 mod 8) * 262144 + (b1 mod 64) * 4096 + (b2 mod 64) * 64 + b3 mod 64"
  shows "0x10000 \<le> r \<and> r \<le> 0x10FFFF
     \<and> 0xF0 + r div 262144 = b0 \<and> 0x80 + (r div 4096) mod 64 = b1
     \<and> 0x80 + (r div 64) mod 64 = b2 \<and> 0x80 + r mod 64 = b3"
proof -
  define a b c d where "a = b0 - 240" and "b = b1 - 128" and "c = b2 - 128" and "d = b3 - 128"
  have b0: "b0 = 8 * 30 + a" and a: "a < 5" using assms by (simp_all add: a_def)
  have b1: "b1 = 64 * 2 + b" and b: "b < 64" using assms by (simp_all add: b_def)
  have b2: "b2 = 64 * 2 + c" and c: "c < 64" using assms by (simp_all add: c_def)
  have b3: "b3 = 64 * 2 + d" and d: "d < 64" using assms by (simp_all add: d_def)
  have lo: "a = 0 \<longrightarrow> 16 \<le> b" and hi: "a = 4 \<longrightarrow> b < 16"
    using assms(9,10) by (auto simp: b0 b1)
  have "b0 mod 8 = a" and "b1 mod 64 = b" and "b2 mod 64 = c" and "b3 mod 64 = d"
    using a b c d unfolding b0 b1 b2 b3 by (simp_all only: mod_mult_self4 mod_less)
  then have r: "r = a * 262144 + b * 4096 + c * 64 + d" by (simp add: assms(11))
  have r': "r = ((a * 64 + b) * 64 + c) * 64 + d" by (simp add: r)
  have d1: "r div 64 = (a * 64 + b) * 64 + c" unfolding r' using d by (rule divmod64)
  have m1: "r mod 64 = d" unfolding r' using d by (rule divmod64)
  have d2: "r div 4096 = a * 64 + b"
  proof -
    have "r div 4096 = (r div 64) div 64" by (simp add: div_mult2_eq)
    also have "\<dots> = a * 64 + b" using c by (simp add: d1)
    finally show ?thesis .
  qed
  have d3: "r div 262144 = a"
  proof -
    have "r div 262144 = (r div 4096) div 64" by (simp add: div_mult2_eq)
    also have "\<dots> = a" using b by (simp add: d2)
    finally show ?thesis .
  qed
  have m2: "(r div 64) mod 64 = c" unfolding d1 using c by (rule divmod64)
  have m3: "(r div 4096) mod 64 = b" using b by (simp add: d2)
  consider "a = 0" | "0 < a" "a < 4" | "a = 4" using a by linarith
  then have range: "0x10000 \<le> r \<and> r \<le> 0x10FFFF"
    using b c d lo hi unfolding r by cases auto
  show ?thesis using range by (simp add: d3 m3 m2 m1 b0 b1 b2 b3)
qed



lemma byteval_lt: "byteval c < 256"
proof -
  have "(of_char c :: nat) mod 256 < 256" by simp
  then show ?thesis by (simp add: byteval_def)
qed

lemma byte_byteval: "byte (byteval c) = c"
  by (simp add: byte_def byteval_def)

lemma byteval_byte: "n < 256 \<Longrightarrow> byteval (byte n) = n"
  by (simp add: byte_def byteval_def)

lemma utf8_first_cases:
  assumes "utf8_first b0 = Some (sz, lo, hi)"
  shows "0x80 \<le> lo \<and> hi \<le> 0xBF
     \<and> ((sz = 2 \<and> 0xC2 \<le> b0 \<and> b0 \<le> 0xDF)
        \<or> (sz = 3 \<and> 0xE0 \<le> b0 \<and> b0 \<le> 0xEF
              \<and> (b0 = 0xE0 \<longrightarrow> lo = 0xA0) \<and> (b0 = 0xED \<longrightarrow> hi = 0x9F))
        \<or> (sz = 4 \<and> 0xF0 \<le> b0 \<and> b0 \<le> 0xF4
              \<and> (b0 = 0xF0 \<longrightarrow> lo = 0x90) \<and> (b0 = 0xF4 \<longrightarrow> hi = 0x8F)))"
  using assms by (auto simp: utf8_first_def split: if_splits)

lemma take_nths:
  "2 \<le> length s \<Longrightarrow> take 2 s = [s ! 0, s ! 1]"
  "3 \<le> length s \<Longrightarrow> take 3 s = [s ! 0, s ! 1, s ! 2]"
  "4 \<le> length s \<Longrightarrow> take 4 s = [s ! 0, s ! 1, s ! 2, s ! 3]"
  by (auto simp: Suc_le_length_iff eval_nat_numeral)

lemma encodeRune2:
  assumes "0xC2 \<le> byteval c0" "byteval c0 \<le> 0xDF" "0x80 \<le> byteval c1" "byteval c1 \<le> 0xBF"
  shows "encodeRune ((byteval c0 mod 32) * 64 + byteval c1 mod 64) = [c0, c1]
         \<and> validRune ((byteval c0 mod 32) * 64 + byteval c1 mod 64)"
proof -
  define r where "r = (byteval c0 mod 32) * 64 + byteval c1 mod 64"
  from ar2 [OF assms r_def] have "encodeRune r = [c0, c1] \<and> validRune r"
    by (auto simp: encodeRune_def byte_byteval validRune_def)
  then show ?thesis by (simp add: r_def)
qed

lemma encodeRune3:
  assumes "0xE0 \<le> byteval c0" "byteval c0 \<le> 0xEF" "0x80 \<le> byteval c1" "byteval c1 \<le> 0xBF"
    "0x80 \<le> byteval c2" "byteval c2 \<le> 0xBF"
    "byteval c0 = 0xE0 \<longrightarrow> 0xA0 \<le> byteval c1" "byteval c0 = 0xED \<longrightarrow> byteval c1 \<le> 0x9F"
  shows "encodeRune ((byteval c0 mod 16) * 4096 + (byteval c1 mod 64) * 64 + byteval c2 mod 64)
           = [c0, c1, c2]
         \<and> validRune ((byteval c0 mod 16) * 4096 + (byteval c1 mod 64) * 64 + byteval c2 mod 64)"
proof -
  define r where "r = (byteval c0 mod 16) * 4096 + (byteval c1 mod 64) * 64 + byteval c2 mod 64"
  from ar3 [OF assms r_def] have "encodeRune r = [c0, c1, c2] \<and> validRune r"
    by (auto simp: encodeRune_def byte_byteval validRune_def)
  then show ?thesis by (simp add: r_def)
qed

lemma encodeRune4:
  assumes "0xF0 \<le> byteval c0" "byteval c0 \<le> 0xF4" "0x80 \<le> byteval c1" "byteval c1 \<le> 0xBF"
    "0x80 \<le> byteval c2" "byteval c2 \<le> 0xBF" "0x80 \<le> byteval c3" "byteval c3 \<le> 0xBF"
    "byteval c0 = 0xF0 \<longrightarrow> 0x90 \<le> byteval c1" "byteval c0 = 0xF4 \<longrightarrow> byteval c1 \<le> 0x8F"
  shows "encodeRune ((byteval c0 mod 8) * 262144 + (byteval c1 mod 64) * 4096
                     + (byteval c2 mod 64) * 64 + byteval c3 mod 64)
           = [c0, c1, c2, c3]
         \<and> validRune ((byteval c0 mod 8) * 262144 + (byteval c1 mod 64) * 4096
                       + (byteval c2 mod 64) * 64 + byteval c3 mod 64)"
proof -
  define r where "r = (byteval c0 mod 8) * 262144 + (byteval c1 mod 64) * 4096
                     + (byteval c2 mod 64) * 64 + byteval c3 mod 64"
  from ar4 [OF assms r_def] have "encodeRune r = [c0, c1, c2, c3] \<and> validRune r"
    by (auto simp: encodeRune_def byte_byteval validRune_def)
  then show ?thesis by (simp add: r_def)
qed

lemma decodeValid_take:
  assumes "decodeValid s = Some (r, n)"
  shows "encodeRune r = take n s \<and> 0 < n \<and> n \<le> length s \<and> validRune r"
proof (cases s)
  case Nil
  with assms show ?thesis by (simp add: decodeValid_def)
next
  case (Cons c0 cs)
  show ?thesis
  proof (cases "byteval c0 < 0x80")
    case True
    with assms Cons show ?thesis
      by (auto simp: decodeValid_def encodeRune_def byte_byteval validRune_def)
  next
    case False
    with assms Cons obtain sz lo hi where first: "utf8_first (byteval c0) = Some (sz, lo, hi)"
      by (cases "utf8_first (byteval c0)") (auto simp: decodeValid_def Let_def)
    note fc = utf8_first_cases [OF first]
    from assms Cons False first have len: "sz \<le> length s"
      by (auto simp: decodeValid_def Let_def split: if_splits)
    from assms Cons False first len
    have b1: "lo \<le> byteval (s ! 1)" "byteval (s ! 1) \<le> hi"
      by (auto simp: decodeValid_def Let_def split: if_splits)
    have s0: "s ! 0 = c0" using Cons by simp
    from fc consider (two) "sz = 2" | (three) "sz = 3" | (four) "sz = 4" by blast
    then show ?thesis
    proof cases
      case two
      with assms Cons False first len b1
      have rn: "r = (byteval c0 mod 32) * 64 + byteval (s ! 1) mod 64" "n = 2"
        by (auto simp: decodeValid_def Let_def split: if_splits)
      have "encodeRune r = [c0, s ! 1] \<and> validRune r"
        unfolding rn using fc b1 two by (intro encodeRune2) auto
      with len two rn s0 show ?thesis by (simp add: take_nths)
    next
      case three
      with assms Cons False first len b1
      have b2: "0x80 \<le> byteval (s ! 2)" "byteval (s ! 2) \<le> 0xBF"
        and rn: "r = (byteval c0 mod 16) * 4096 + (byteval (s ! 1) mod 64) * 64
                     + byteval (s ! 2) mod 64" "n = 3"
        by (auto simp: decodeValid_def Let_def split: if_splits)
      have "encodeRune r = [c0, s ! 1, s ! 2] \<and> validRune r"
        unfolding rn using fc b1 b2 three by (intro encodeRune3) auto
      with len three rn s0 show ?thesis by (simp add: take_nths)
    next
      case four
      with assms Cons False first len b1
      have b2: "0x80 \<le> byteval (s ! 2)" "byteval (s ! 2) \<le> 0xBF"
        and b3: "0x80 \<le> byteval (s ! 3)" "byteval (s ! 3) \<le> 0xBF"
        and rn: "r = (byteval c0 mod 8) * 262144 + (byteval (s ! 1) mod 64) * 4096
                     + (byteval (s ! 2) mod 64) * 64 + byteval (s ! 3) mod 64" "n = 4"
        by (auto simp: decodeValid_def Let_def split: if_splits)
      have "encodeRune r = [c0, s ! 1, s ! 2, s ! 3] \<and> validRune r"
        unfolding rn using fc b1 b2 b3 four by (intro encodeRune4) auto
      with len four rn s0 show ?thesis by (simp add: take_nths)
    qed
  qed
qed











lemma splitNick_valid:
  assumes "1 < length nick" and "decodeValid nick = Some (r, n)"
  shows "splitNick nick = take n nick @ zwsp @ drop n nick"
  using assms decodeValid_take [OF assms(2)]
  by (simp add: splitNick_def DecodeRuneInString_def zwsp_def)

lemma splitNick_invalid:
  assumes "1 < length nick" and "decodeValid nick = None"
  shows "splitNick nick = encodeRune RuneError @ zwsp @ drop 1 nick"
  using assms by (auto simp: splitNick_def DecodeRuneInString_def zwsp_def)



subsection \<open>Newlines\<close>

lemma noNewline_Nil: "noNewline []"
  by (simp add: noNewline_def)

lemma noNewline_Cons: "noNewline (c # s) \<longleftrightarrow> c \<noteq> CHR 0x0A \<and> c \<noteq> CHR 0x0D \<and> noNewline s"
  by (auto simp: noNewline_def)

lemma noNewline_append: "noNewline (a @ b) \<longleftrightarrow> noNewline a \<and> noNewline b"
  by (auto simp: noNewline_def)

lemmas noNewline_simps = noNewline_Nil noNewline_Cons noNewline_append

lemma replacerNewline_noNewline: "noNewline (replacerNewline s)"
  by (induction s rule: replacerNewline.induct) (auto simp: noNewline_simps)

lemma replacerNewline_id: "noNewline s \<Longrightarrow> replacerNewline s = s"
  by (induction s rule: replacerNewline.induct) (auto simp: noNewline_simps)

lemma replacerNewline_Cons:
  "c \<noteq> CHR 0x0A \<Longrightarrow> c \<noteq> CHR 0x0D \<Longrightarrow> replacerNewline (c # s) = c # replacerNewline s"
  by (cases s) simp_all

lemma replacerNewline_CRLF: "replacerNewline (CHR 0x0D # CHR 0x0A # s) = CHR '' '' # replacerNewline s"
  by simp

lemma replacerNewline_LF: "replacerNewline (CHR 0x0A # s) = CHR '' '' # replacerNewline s"
  by (cases s) simp_all

lemma replacerNewline_CR:
  "\<not> prefix [CHR 0x0A] s \<Longrightarrow> replacerNewline (CHR 0x0D # s) = CHR '' '' # replacerNewline s"
  by (cases s) simp_all

lemma replacerNewline_append:
  "noNewline a \<Longrightarrow> replacerNewline (a @ s) = a @ replacerNewline s"
  by (induction a) (simp_all add: noNewline_simps replacerNewline_Cons)

lemma noNewline_byte:
  assumes "k < 256" and "k \<noteq> 10" and "k \<noteq> 13"
  shows "noNewline [byte k]"
proof -
  have "byteval (byte k) = k" using assms(1) by (rule byteval_byte)
  moreover have "byteval (CHR 0x0A) = 10" and "byteval (CHR 0x0D) = 13"
    by (simp_all add: byteval_def)
  ultimately have "byte k \<noteq> CHR 0x0A" and "byte k \<noteq> CHR 0x0D"
    using assms(2,3) by auto
  then show ?thesis by (simp add: noNewline_simps)
qed

lemma noNewline_hexDigit: "d < 16 \<Longrightarrow> noNewline [hexDigit d]"
  by (simp add: hexDigit_def noNewline_byte)

lemma noNewline_hexStr: "noNewline (hexStr n)"
proof (induction n rule: hexStr.induct)
  case (1 n)
  show ?case
  proof (cases "n < 16")
    case True
    then show ?thesis by (subst hexStr.simps) (simp add: noNewline_hexDigit)
  next
    case False
    with 1 show ?thesis
      by (subst hexStr.simps) (simp add: noNewline_append noNewline_hexDigit)
  qed
qed

lemma noNewline_decStr: "noNewline (decStr n)"
proof (induction n rule: decStr.induct)
  case (1 n)
  show ?case
  proof (cases "n < 10")
    case True
    then show ?thesis by (subst decStr.simps) (simp add: noNewline_byte)
  next
    case False
    with 1 show ?thesis
      by (subst decStr.simps) (simp add: noNewline_append noNewline_byte)
  qed
qed

lemma noNewline_replicate: "c \<noteq> CHR 0x0A \<Longrightarrow> c \<noteq> CHR 0x0D \<Longrightarrow> noNewline (replicate k c)"
  by (induction k) (simp_all add: noNewline_simps)

lemma noNewline_pad0: "noNewline s \<Longrightarrow> noNewline (pad0 w s)"
  by (simp add: pad0_def noNewline_append noNewline_replicate)

lemma noNewline_authorColor: "noNewline (authorColor env m)"
  by (simp add: authorColor_def Let_def fmt06X_def fmt02d_def fmt_bytes
      noNewline_hexStr noNewline_decStr noNewline_pad0 noNewline_simps)

lemma noNewline_splitNick: "noNewline d \<Longrightarrow> noNewline (splitNick d)"
proof (cases "1 < length d")
  case False
  assume "noNewline d"
  with False show ?thesis by (simp add: splitNick_def)
next
  case True
  assume d: "noNewline d"
  have z: "noNewline zwsp" by (simp add: zwsp_bytes noNewline_simps)
  have rest: "\<And>k. noNewline (drop k d)" "\<And>k. noNewline (take k d)"
    using d by (auto simp: noNewline_def dest: in_set_dropD in_set_takeD)
  show ?thesis
  proof (cases "decodeValid d")
    case None
    have "noNewline (encodeRune RuneError)"
      using noNewline_byte [of 239] noNewline_byte [of 191] noNewline_byte [of 189]
      by (simp add: encodeRune_def RuneError_def noNewline_simps)
    with True None z rest show ?thesis
      by (simp add: splitNick_invalid noNewline_append)
  next
    case (Some rn)
    obtain r n where "rn = (r, n)" by (cases rn)
    with True Some z rest show ?thesis
      by (simp add: splitNick_valid noNewline_append)
  qed
qed

lemma noNewline_senderPrefix:
  "noNewline (displayName m nk) \<Longrightarrow> noNewline (senderPrefix env m nk)"
  by (simp add: senderPrefix_def noNewline_simps noNewline_authorColor noNewline_splitNick
      fmt_bytes)

text \<open>
  Claim C9, as amended. For a Discord message that is relayed with a text (the author
  is not the bridge, the channel is configured, the member is present, the content is
  not empty, the IRC connection is there), the first message handed to the IRC
  connection is a \<open>PRIVMSG\<close> whose text is the sender prefix followed by the body, the
  formatted content with every CR LF, LF and CR replaced by one space. The body holds
  no newline byte; the prefix is not filtered, so the whole parameter is free of
  newline bytes when the name shown for the author is.
\<close>

theorem body_newlines_replaced:
  assumes "dAuthorID m \<noteq> selfID env"
    and "map_of (cfgChannels b) (dChannelID m) = Some ic"
    and "dMemberNick m = Some nk"
    and "dContent m \<noteq> []"
    and "ircClientSet b"
  shows "(\<exists>body rest.
            discordMessage env b m
              = Inr (WriteMessage (relayedPrivmsg m (discordReplyID b m) ic
                                     (senderPrefix env m nk @ body)) # rest)
            \<and> body = replacerNewline (discordIRCFormat env (dGuildID m) (dContent m))
            \<and> noNewline body
            \<and> (noNewline (displayName m nk) \<longrightarrow> noNewline (senderPrefix env m nk @ body)))
         \<and> (noNewline a \<longrightarrow>
              replacerNewline (a @ CHR 0x0D # CHR 0x0A # t) = a @ CHR '' '' # replacerNewline t
              \<and> replacerNewline (a @ CHR 0x0A # t) = a @ CHR '' '' # replacerNewline t
              \<and> (\<not> prefix [CHR 0x0A] t \<longrightarrow>
                   replacerNewline (a @ CHR 0x0D # t) = a @ CHR '' '' # replacerNewline t)
              \<and> replacerNewline a = a)"
proof (intro conjI)
  show "\<exists>body rest.
           discordMessage env b m
             = Inr (WriteMessage (relayedPrivmsg m (discordReplyID b m) ic
                                    (senderPrefix env m nk @ body)) # rest)
           \<and> body = replacerNewline (discordIRCFormat env (dGuildID m) (dContent m))
           \<and> noNewline body
           \<and> (noNewline (displayName m nk) \<longrightarrow> noNewline (senderPrefix env m nk @ body))"
    using assms
    by (simp add: discordMessage_def ircWrite_relayedPrivmsg Let_def replacerNewline_noNewline
        noNewline_append noNewline_senderPrefix)
  show "noNewline a \<longrightarrow>
          replacerNewline (a @ CHR 0x0D # CHR 0x0A # t) = a @ CHR '' '' # replacerNewline t
          \<and> replacerNewline (a @ CHR 0x0A # t) = a @ CHR '' '' # replacerNewline t
          \<and> (\<not> prefix [CHR 0x0A] t \<longrightarrow>
               replacerNewline (a @ CHR 0x0D # t) = a @ CHR '' '' # replacerNewline t)
          \<and> replacerNewline a = a"
    by (simp add: replacerNewline_append replacerNewline_CRLF replacerNewline_LF
        replacerNewline_CR replacerNewline_id)
qed

theorem body_newlines_replaced_witness:
  "dAuthorID (sampleMsg\<lparr>dContent := ''a'' @ [CHR 0x0D, CHR 0x0A] @ ''b''\<rparr>) \<noteq> selfID sampleDiscordEnv
   \<and> map_of (cfgChannels sampleBridge) (dChannelID sampleMsg) = Some ''#chan''
   \<and> dMemberNick sampleMsg = Some []
   \<and> ircClientSet sampleBridge
   \<and> noNewline ''a''
   \<and> replacerNewline (''a'' @ CHR 0x0D # CHR 0x0A # ''b'') = ''a b''
   \<and> discordMessage sampleDiscordEnv sampleBridge
        (sampleMsg\<lparr>dContent := ''a'' @ [CHR 0x0D, CHR 0x0A] @ ''b''\<rparr>)
      = Inr [WriteMessage
               \<lparr>tags = [(''+discord'', ''d9''), (''+draft/reply'', [])], prefixName = None,
                command = ''PRIVMSG'',
                params = [''#chan'', ''<'' @ [fColorHex] @ ''0000FFb'' @ zwsp @ ''ob'' @ [fReset]
                                    @ ''> a b'']\<rparr>]
   \<and> noNewline (''<'' @ [fColorHex] @ ''0000FFb'' @ zwsp @ ''ob'' @ [fReset] @ ''> a b'')"
  using body_newlines_replaced [of "sampleMsg\<lparr>dContent := ''a'' @ [CHR 0x0D, CHR 0x0A] @ ''b''\<rparr>"
      sampleDiscordEnv sampleBridge "''#chan''" "[]" "''a''" "''b''"]
  by (simp add: discord_eval zwsp_bytes noNewline_simps)

text \<open>
  Claim C9 as stated fails for the parameter as a whole: a line feed in the nickname of
  the author goes into the prefix and so into the text handed to the IRC connection.
\<close>

theorem body_newlines_counterexample:
  "discordMessage sampleDiscordEnv sampleBridge
     (sampleMsg\<lparr>dMemberNick := Some (''a'' @ [CHR 0x0A] @ ''b'')\<rparr>)
   = Inr [WriteMessage
            \<lparr>tags = [(''+discord'', ''d9''), (''+draft/reply'', [])], prefixName = None,
             command = ''PRIVMSG'',
             params = [''#chan'', ''<'' @ [fColorHex] @ ''0000FFa'' @ zwsp @ [CHR 0x0A] @ ''b''
                                 @ [fReset] @ ''> hi'']\<rparr>]
   \<and> CHR 0x0A \<in> set (''<'' @ [fColorHex] @ ''0000FFa'' @ zwsp @ [CHR 0x0A] @ ''b''
                       @ [fReset] @ ''> hi'')"
  by (simp add: discord_eval zwsp_bytes)

subsection \<open>The tree walker\<close>

lemma walkAll_append: "walkAll env g (xs @ ys) = walkAll env g xs @ walkAll env g ys"
  by (simp add: walkAll_def)

lemma walkAll_Cons: "walkAll env g (n # ns) = Walk (visit env g) n @ walkAll env g ns"
  by (simp add: walkAll_def)

lemma Walk_containers:
  "Walk (visit env g) (BoldNode cs) = fBold # walkAll env g cs @ [fBold]"
  "Walk (visit env g) (ItalicsNode cs) = fItalics # walkAll env g cs @ [fItalics]"
  "Walk (visit env g) (UnderlineNode cs) = fUnderline # walkAll env g cs @ [fUnderline]"
  "Walk (visit env g) (StrikethroughNode cs) = fStrikethrough # walkAll env g cs @ [fStrikethrough]"
  "Walk (visit env g) (SpoilerNode cs) = (fReverse # ''||'') @ walkAll env g cs @ ''||'' @ [fReverse]"
  "Walk (visit env g) (BlockQuoteNode cs)
     = encodeRune 0x201C @ walkAll env g cs @ encodeRune 0x201D"
  by (simp_all add: walkAll_def)

text \<open>
  Claim C7. The walker is a total function to strings: no case of the visitor can
  fail. In any list of nodes (the nodes under the root, or the children of a
  container, see \<open>Walk_containers\<close>), a channel, role or user mention that the roster
  does not resolve, a timestamp whose epoch does not parse and a timestamp with an
  unknown format code each give their placeholder, between the translation of the
  nodes before and the translation of the nodes after.
\<close>

theorem walker_placeholders:
  "(stateChannel env i = None \<longrightarrow>
      walkAll env g (pre @ ChannelMentionNode i # post)
        = walkAll env g pre @ ''#invalid-channel'' @ walkAll env g post)
   \<and> (stateRole env g i = None \<longrightarrow>
        walkAll env g (pre @ RoleMentionNode i # post)
          = walkAll env g pre @ ''@invalid-role'' @ walkAll env g post)
   \<and> (stateMember env g i = None \<longrightarrow>
        walkAll env g (pre @ UserMentionNode i # post)
          = walkAll env g pre @ ''@invalid-user'' @ walkAll env g post)
   \<and> (ParseInt stamp = None \<longrightarrow>
        walkAll env g (pre @ TimestampNode stamp fmt # post)
          = walkAll env g pre @ ''<invalid-timestamp>'' @ walkAll env g post)
   \<and> (fmt' \<notin> set [''t'', ''T'', ''d'', ''D'', ''f'', ''F'', ''R''] \<longrightarrow>
        walkAll env g (pre @ TimestampNode stamp' fmt' # post)
          = walkAll env g pre @ ''<invalid-timestamp>'' @ walkAll env g post)"
  by (simp add: walkAll_append walkAll_Cons visitTimestamp_def split: option.splits)

theorem walker_placeholders_witness:
  "stateChannel sampleDiscordEnv ''42'' = None
   \<and> stateRole sampleDiscordEnv ''g'' ''42'' = None
   \<and> stateMember sampleDiscordEnv ''g'' ''42'' = None
   \<and> ParseInt ''12x'' = None
   \<and> ParseInt ''12'' = Some 12
   \<and> ''x'' \<notin> set [''t'', ''T'', ''d'', ''D'', ''f'', ''F'', ''R'']
   \<and> walkAll sampleDiscordEnv ''g'' ([TextNode ''a''] @ ChannelMentionNode ''42'' # [BoldNode [TextNode ''b'']])
     = ''a#invalid-channel'' @ [fBold] @ ''b'' @ [fBold]
   \<and> walkAll sampleDiscordEnv ''g'' ([TextNode ''a''] @ RoleMentionNode ''42'' # [BoldNode [TextNode ''b'']])
     = ''a@invalid-role'' @ [fBold] @ ''b'' @ [fBold]
   \<and> walkAll sampleDiscordEnv ''g'' ([TextNode ''a''] @ UserMentionNode ''42'' # [BoldNode [TextNode ''b'']])
     = ''a@invalid-user'' @ [fBold] @ ''b'' @ [fBold]
   \<and> walkAll sampleDiscordEnv ''g'' ([TextNode ''a''] @ TimestampNode ''12x'' ''t'' # [BoldNode [TextNode ''b'']])
     = ''a<invalid-timestamp>'' @ [fBold] @ ''b'' @ [fBold]
   \<and> walkAll sampleDiscordEnv ''g'' ([TextNode ''a''] @ TimestampNode ''12'' ''x'' # [BoldNode [TextNode ''b'']])
     = ''a<invalid-timestamp>'' @ [fBold] @ ''b'' @ [fBold]"
  using walker_placeholders [of sampleDiscordEnv "''42''" "''g''" "[TextNode ''a'']"
      "[BoldNode [TextNode ''b'']]" "''12x''" "''t''" "''x''" "''12''"]
  by (simp add: sampleDiscordEnv_def ParseInt_def parseUint_def isDecimal_def byteval_def
      walkAll_def)

end
